theory Spec2Isabelle
  imports Main
begin

section \<open>Python containers\<close>

text \<open>
  A Python \<open>dict\<close> that the code iterates over (\<open>.items()\<close>, \<open>.values()\<close>) or tests for
  emptiness is an association list with one entry per key, kept in the order in which the
  keys were first stored.  The iteration order of a Python 2 dictionary is unspecified; the
  insertion order is one admissible order, and no statement below depends on it.
  A dictionary that is only subscripted is a map \<open>'k \<rightharpoonup> 'a\<close>.
\<close>

fun dict_set :: "'k \<Rightarrow> 'a \<Rightarrow> ('k \<times> 'a) list \<Rightarrow> ('k \<times> 'a) list" where
  "dict_set k v [] = [(k, v)]"
| "dict_set k v ((k', v') # d) =
     (if k = k' then (k, v) # d else (k', v') # dict_set k v d)"

text \<open>\<open>collections.defaultdict(list)\<close>: a missing key reads as the empty list.\<close>

definition dd_get :: "('k \<times> 'a list) list \<Rightarrow> 'k \<Rightarrow> 'a list" where
  "dd_get d k = (case map_of d k of None \<Rightarrow> [] | Some xs \<Rightarrow> xs)"

text \<open>\<open>d[k].append(x)\<close> on a \<open>defaultdict(list)\<close>.\<close>

definition dd_append :: "'k \<Rightarrow> 'a \<Rightarrow> ('k \<times> 'a list) list \<Rightarrow> ('k \<times> 'a list) list" where
  "dd_append k x d = dict_set k (dd_get d k @ [x]) d"

text \<open>
  \<open>d[a][b].append(x)\<close> on a
  \<open>defaultdict(functools.partial(defaultdict, list))\<close>.
\<close>

definition dd2_append ::
  "'k \<Rightarrow> 'k \<Rightarrow> 'a \<Rightarrow> ('k \<times> ('k \<times> 'a list) list) list \<Rightarrow> ('k \<times> ('k \<times> 'a list) list) list" where
  "dd2_append a b x m = dict_set a (dd_append b x (dd_get m a)) m"

definition dd2_get :: "('k \<times> ('k \<times> 'a list) list) list \<Rightarrow> 'k \<Rightarrow> 'k \<Rightarrow> 'a list" where
  "dd2_get m a b = dd_get (dd_get m a) b"

text \<open>\<open>list.remove(x)\<close>: deletes the first occurrence, \<open>ValueError\<close> when there is none.\<close>

fun list_remove :: "'a \<Rightarrow> 'a list \<Rightarrow> 'a list option" where
  "list_remove x [] = None"
| "list_remove x (y # ys) =
     (if x = y then Some ys
      else (case list_remove x ys of None \<Rightarrow> None | Some zs \<Rightarrow> Some (y # zs)))"

section \<open>Data model\<close>

text \<open>
  Python values (host names, object and unique identifiers, session identifiers, link
  kinds, attribute values) are the elements of one type \<open>'v\<close>, compared by equality.
  A drop specification is a dictionary from attribute names to values.
\<close>

type_synonym 'v dropSpec = "(string \<times> 'v) list"

text \<open>\<open>DROPRel\<close> is the named tuple \<open>(lhs, rel, rhs)\<close> of \<open>dfms.ddap_protocol\<close>.\<close>

datatype 'v DROPRel = DROPRel (lhs: 'v) (rel: 'v) (rhs: 'v)

datatype 'v pykey = Attr string | Val 'v

datatype 'v graph_msg =
    NoAttribute 'v string
  | NotThisDM 'v string 'v

datatype 'v dfms_msg =
    FailedToStartDM 'v nat
  | StartedNoConnect 'v nat
  | SubscriptionErrors 'v
  | CompletedNotFound "'v list"
  | TriggerErrors 'v

text \<open>
  The exceptions.  \<open>External\<close> is any exception raised by a collaborator outside this
  module (socket, SSH client, REST client); the others are raised by the code below.
\<close>

datatype ('v, 'e) exn =
    KeyError "'v pykey"
  | ValueError 'v
  | InvalidGraphException "'v graph_msg"
  | DaliugeException "'v dfms_msg" "('v \<times> ('v, 'e) exn) list"
  | SubManagerException string 'v "('v \<times> ('v, 'e) exn) list"
  | External 'e


text \<open>
  The operations of the drop-manager interface that are sent to a child.
  \<open>AddGraphSpecValue\<close> is \<open>addGraphSpec\<close> called with a value in the place of the
  list of drop specifications.
\<close>

datatype 'v rpc =
    CreateSession 'v
  | DestroySession 'v
  | AddGraphSpec 'v "'v dropSpec list"
  | AddGraphSpecValue 'v 'v
  | DeploySession 'v
  | AddNodeSubscriptions 'v "('v \<times> 'v DROPRel list) list"
  | TriggerDrops 'v "'v list"
  | GetGraphStatus 'v
  | GetGraph 'v
  | GetSessionStatus 'v
  | GetGraphSize 'v

text \<open>
  What the manager does to the outside world, in the order in which it does it:
  a reachability probe of \<open>host:port\<close>, the remote start of a sub-manager with the four
  parts of its command line, and a call on the client of \<open>host:port\<close>.
\<close>

datatype 'v event =
    Probe 'v nat
  | StartDM 'v string string nat
  | Call 'v nat "'v rpc"

text \<open>
  The outside world answers each of them, and the answer may depend on everything that
  happened before.  A probe answers open or closed or raises; the remote start yields the
  exit status or raises; a call returns a result or raises.

  The values of type \<open>'v\<close> are compared and passed on, with one exception: the
  assignment \<open>host, graphSpec = host_and_graphspec\<close> of \<open>_addGraphSpec\<close> can meet a
  value in the place of a pair.  What Python's unpacking makes of a value is the fourth
  component, \<open>unpack_env\<close>: the two parts when the value is a sequence of two elements
  (a host name of two characters unpacks into its characters), and nothing otherwise.
\<close>

record ('v, 'e, 'r) env =
  probe_env :: "'v event list \<Rightarrow> 'v \<Rightarrow> nat \<Rightarrow> 'e + bool"
  exec_env :: "'v event list \<Rightarrow> 'v \<Rightarrow> 'e + int"
  rpc_env :: "'v event list \<Rightarrow> 'v \<Rightarrow> nat \<Rightarrow> 'v rpc \<Rightarrow> 'e + 'r"
  unpack_env :: "'v \<Rightarrow> ('v \<times> 'v) option"

text \<open>
  The manager and the objects it shares.  \<open>lists\<close> is the store of Python list objects
  and \<open>dicts\<close> the store of drop-specification objects, both addressed by numbers:
  \<open>dmHosts\<close> and \<open>nodes\<close> are references into \<open>lists\<close>, and the session graph holds
  references into \<open>dicts\<close>, as the code keeps the caller's objects.  \<open>tp\<close> is the number
  of workers of the thread pool and \<open>trace\<close> the events so far.  The background checker
  thread is not part of the model.
\<close>

record 'v state =
  dmPort :: nat
  partitionAttr :: string
  dmExec :: string
  subDmId :: string
  dmHosts :: nat
  graph :: "'v \<rightharpoonup> nat"
  drop_rels :: "'v \<rightharpoonup> ('v \<times> ('v \<times> 'v DROPRel list) list) list"
  sessionIds :: "'v list"
  nodes :: nat
  tp :: nat
  lists :: "nat \<Rightarrow> 'v list"
  next_list :: nat
  dicts :: "nat \<Rightarrow> 'v dropSpec"
  trace :: "'v event list"

section \<open>Module functions\<close>

definition uid_for_drop :: "'v dropSpec \<Rightarrow> ('v, 'e) exn + 'v" where
  "uid_for_drop dropSpec =
     (case map_of dropSpec ''uid'' of
        Some u \<Rightarrow> Inr u
      | None \<Rightarrow>
          (case map_of dropSpec ''oid'' of
             Some oid \<Rightarrow> Inr oid
           | None \<Rightarrow> Inl (KeyError (Attr ''oid''))))"

text \<open>\<open>graph[k]\<close> followed by reading the object.\<close>

definition graph_at :: "('v \<rightharpoonup> nat) \<Rightarrow> (nat \<Rightarrow> 'v dropSpec) \<Rightarrow> 'v \<Rightarrow> ('v, 'e) exn + 'v dropSpec" where
  "graph_at g ds k = (case g k of None \<Rightarrow> Inl (KeyError (Val k)) | Some a \<Rightarrow> Inr (ds a))"

definition spec_attr :: "'v dropSpec \<Rightarrow> string \<Rightarrow> ('v, 'e) exn + 'v" where
  "spec_attr d a = (case map_of d a of None \<Rightarrow> Inl (KeyError (Attr a)) | Some v \<Rightarrow> Inr v)"

text \<open>
  \<open>sanitize_relations\<close> builds the new list and assigns it to the old list object only
  after the loop; the model returns the new list, or the exception of the first lookup
  that fails.
\<close>

fun sanitize_relations ::
  "'v DROPRel list \<Rightarrow> ('v \<rightharpoonup> nat) \<Rightarrow> (nat \<Rightarrow> 'v dropSpec) \<Rightarrow> ('v, 'e) exn + 'v DROPRel list" where
  "sanitize_relations [] g ds = Inr []"
| "sanitize_relations (r # rs) g ds =
     (case graph_at g ds (lhs r) of
        Inl e \<Rightarrow> Inl e
      | Inr sl \<Rightarrow>
     (case uid_for_drop sl of
        Inl e \<Rightarrow> Inl e
      | Inr l \<Rightarrow>
     (case graph_at g ds (rhs r) of
        Inl e \<Rightarrow> Inl e
      | Inr sr \<Rightarrow>
     (case uid_for_drop sr of
        Inl e \<Rightarrow> Inl e
      | Inr r' \<Rightarrow>
     (case sanitize_relations rs g ds of
        Inl e \<Rightarrow> Inl e
      | Inr rs' \<Rightarrow> Inr (DROPRel l (rel r) r' # rs'))))))"

fun group_by_node_loop ::
  "'v list \<Rightarrow> ('v \<rightharpoonup> nat) \<Rightarrow> (nat \<Rightarrow> 'v dropSpec) \<Rightarrow> ('v \<times> 'v list) list
     \<Rightarrow> ('v, 'e) exn + ('v \<times> 'v list) list" where
  "group_by_node_loop [] g ds uids_by_node = Inr uids_by_node"
| "group_by_node_loop (uid # uids) g ds uids_by_node =
     (case graph_at g ds uid of
        Inl e \<Rightarrow> Inl e
      | Inr d \<Rightarrow>
     (case spec_attr d ''node'' of
        Inl e \<Rightarrow> Inl e
      | Inr n \<Rightarrow> group_by_node_loop uids g ds (dd_append n uid uids_by_node)))"

definition group_by_node ::
  "'v list \<Rightarrow> ('v \<rightharpoonup> nat) \<Rightarrow> (nat \<Rightarrow> 'v dropSpec) \<Rightarrow> ('v, 'e) exn + ('v \<times> 'v list) list" where
  "group_by_node uids g ds = group_by_node_loop uids g ds []"

section \<open>The thread pool\<close>

text \<open>
  \<open>multiprocessing.pool.ThreadPool.map(func, iterable)\<close> of the standard library cuts the
  iterable into chunks of \<open>chunksize\<close> items, where
  \<open>chunksize, extra = divmod(len(iterable), len(pool) * 4)\<close>, plus one if \<open>extra\<close> is
  not zero; each chunk is one task, run as the built-in \<open>map(func, chunk)\<close>, which stops
  at the first item on which \<open>func\<close> raises.  Every task is run; if some task raised,
  \<open>map\<close> raises the exception of such a task in the caller (it is
  \<open>map_async(...).get()\<close>, and \<open>get\<close> raises the exception of the call again),
  otherwise it returns.  In Python 2.7 \<open>map\<close> raises as soon as the first task has
  failed, while the workers go on with the other tasks.

  The workers run in parallel.  The model runs the tasks one after the other in the order
  of the iterable, which is one of the schedules, and lets \<open>map\<close> raise the exception of
  the first failed task in that order, after all tasks.  \<open>'w\<close> is whatever the function
  works on.  The pool of a manager has at least one worker.
\<close>

fun py_map :: "('x \<Rightarrow> 'w \<Rightarrow> 'ex option \<times> 'w) \<Rightarrow> 'x list \<Rightarrow> 'w \<Rightarrow> 'ex option \<times> 'w" where
  "py_map f [] w = (None, w)"
| "py_map f (x # xs) w =
     (case f x w of
        (Some e, w') \<Rightarrow> (Some e, w')
      | (None, w') \<Rightarrow> py_map f xs w')"

function get_tasks :: "nat \<Rightarrow> 'x list \<Rightarrow> 'x list list" where
  "get_tasks n xs =
     (if n = 0 \<or> xs = [] then [] else take n xs # get_tasks n (drop n xs))"
  by pat_completeness auto
termination
  by (relation "measure (\<lambda>(n, xs). length xs)") auto

declare get_tasks.simps [simp del]

fun run_tasks :: "('x \<Rightarrow> 'w \<Rightarrow> 'ex option \<times> 'w) \<Rightarrow> 'x list list \<Rightarrow> 'w \<Rightarrow> 'ex option \<times> 'w" where
  "run_tasks f [] w = (None, w)"
| "run_tasks f (c # cs) w =
     (case py_map f c w of
        (r, w') \<Rightarrow>
          (case run_tasks f cs w' of
             (r', w'') \<Rightarrow> ((case r of Some e \<Rightarrow> Some e | None \<Rightarrow> r'), w'')))"

definition chunksize :: "nat \<Rightarrow> nat \<Rightarrow> nat" where
  "chunksize pool n =
     (if n = 0 then 0
      else if n mod (pool * 4) \<noteq> 0 then n div (pool * 4) + 1
      else n div (pool * 4))"

definition tp_map :: "nat \<Rightarrow> ('x \<Rightarrow> 'w \<Rightarrow> 'ex option \<times> 'w) \<Rightarrow> 'x list \<Rightarrow> 'w \<Rightarrow> 'ex option \<times> 'w" where
  "tp_map pool f xs w = run_tasks f (get_tasks (chunksize pool (length xs)) xs) w"

section \<open>CompositeManager\<close>

text \<open>
  \<open>n_threads = max(1, min(len(dmHosts), 20))\<close>, fixed when the manager is built.
\<close>

definition n_threads :: "'v list \<Rightarrow> nat" where
  "n_threads hosts = max 1 (min (length hosts) 20)"

text \<open>
  \<open>CompositeManager.__init__\<close>: \<open>dmHosts\<close> is the address of the caller's list, which
  the manager keeps, an object that exists already (its address is below \<open>next_list\<close>);
  \<open>_nodes = []\<close> is a new list object.  The other fields of the resulting state (the
  stores and the trace) are those of the world the manager is built in.
\<close>

definition CompositeManager_init ::
  "nat \<Rightarrow> string \<Rightarrow> string \<Rightarrow> string \<Rightarrow> nat \<Rightarrow> 'v state \<Rightarrow> 'v state" where
  "CompositeManager_init port attr exec sub hosts w =
     w\<lparr>dmPort := port, partitionAttr := attr, dmExec := exec, subDmId := sub,
       dmHosts := hosts, graph := Map.empty, drop_rels := Map.empty, sessionIds := [],
       tp := n_threads (lists w hosts),
       nodes := next_list w,
       lists := (lists w)(next_list w := []),
       next_list := Suc (next_list w)\<rparr>"

text \<open>The properties \<open>dmHosts\<close> and \<open>nodes\<close> return copies.\<close>

definition get_dmHosts :: "'v state \<Rightarrow> 'v list" where
  "get_dmHosts st = lists st (dmHosts st)"

definition get_nodes :: "'v state \<Rightarrow> 'v list" where
  "get_nodes st = lists st (nodes st)"

definition list_append :: "nat \<Rightarrow> 'v \<Rightarrow> 'v state \<Rightarrow> 'v state" where
  "list_append a x st = st\<lparr>lists := (lists st)(a := lists st a @ [x])\<rparr>"

definition addDmHost :: "'v \<Rightarrow> 'v state \<Rightarrow> 'v state" where
  "addDmHost host st = list_append (dmHosts st) host st"

definition add_node :: "'v \<Rightarrow> 'v state \<Rightarrow> 'v state" where
  "add_node node st = list_append (nodes st) node st"

definition remove_node :: "'v \<Rightarrow> 'v state \<Rightarrow> ('v, 'e) exn + 'v state" where
  "remove_node node st =
     (case list_remove node (lists st (nodes st)) of
        None \<Rightarrow> Inl (ValueError node)
      | Some l \<Rightarrow> Inr (st\<lparr>lists := (lists st)(nodes st := l)\<rparr>))"

definition getSessionIds :: "'v state \<Rightarrow> 'v list" where
  "getSessionIds st = sessionIds st"

definition record_event :: "'v event \<Rightarrow> 'v state \<Rightarrow> 'v state" where
  "record_event ev st = st\<lparr>trace := trace st @ [ev]\<rparr>"

text \<open>
  \<open>portIsOpen(host, port, timeout)\<close> as the manager sees it: the answer of the network.
  The function itself is modelled in the last section.
\<close>

definition probe :: "('v, 'e, 'r) env \<Rightarrow> 'v \<Rightarrow> nat \<Rightarrow> 'v state \<Rightarrow> ('e + bool) \<times> 'v state" where
  "probe env host port st =
     (probe_env env (trace st) host port, record_event (Probe host port) st)"

definition startDM :: "('v, 'e, 'r) env \<Rightarrow> 'v \<Rightarrow> 'v state \<Rightarrow> ('v, 'e) exn option \<times> 'v state" where
  "startDM env host st =
     (let st' = record_event (StartDM host (dmExec st) (subDmId st) (dmPort st)) st in
      case exec_env env (trace st) host of
        Inl e \<Rightarrow> (Some (External e), st')
      | Inr status \<Rightarrow>
          if status \<noteq> 0 then (Some (DaliugeException (FailedToStartDM host (dmPort st)) []), st')
          else (None, st'))"

definition ensureDM :: "('v, 'e, 'r) env \<Rightarrow> 'v \<Rightarrow> 'v state \<Rightarrow> ('v, 'e) exn option \<times> 'v state" where
  "ensureDM env host st =
     (case probe env host (dmPort st) st of
        (Inl e, st1) \<Rightarrow> (Some (External e), st1)
      | (Inr True, st1) \<Rightarrow> (None, st1)
      | (Inr False, st1) \<Rightarrow>
          (case startDM env host st1 of
             (Some e, st2) \<Rightarrow> (Some e, st2)
           | (None, st2) \<Rightarrow>
               (case probe env host (dmPort st2) st2 of
                  (Inl e, st3) \<Rightarrow> (Some (External e), st3)
                | (Inr True, st3) \<Rightarrow> (None, st3)
                | (Inr False, st3) \<Rightarrow>
                    (Some (DaliugeException (StartedNoConnect host (dmPort st3)) []), st3))))"

text \<open>\<open>dmAt(host, port=None)\<close>: \<open>port = port or self._dmPort\<close>.\<close>

definition dmAt :: "'v state \<Rightarrow> 'v \<Rightarrow> nat option \<Rightarrow> 'v \<times> nat" where
  "dmAt st host port =
     (host, (case port of None \<Rightarrow> dmPort st | Some p \<Rightarrow> if p = 0 then dmPort st else p))"

text \<open>A method call on a client: the child answers, and the call is recorded.\<close>

definition client_call ::
  "('v, 'e, 'r) env \<Rightarrow> 'v \<times> nat \<Rightarrow> 'v rpc \<Rightarrow> 'v state \<Rightarrow> (('v, 'e) exn + 'r) \<times> 'v state" where
  "client_call env dm c st =
     (case rpc_env env (trace st) (fst dm) (snd dm) c of
        Inl e \<Rightarrow> (Inl (External e), record_event (Call (fst dm) (snd dm) c) st)
      | Inr r \<Rightarrow> (Inr r, record_event (Call (fst dm) (snd dm) c) st))"

text \<open>
  An item of the iterable of a fan-out is a host, or a pair of a host and what is sent to
  it; \<open>_do_in_host\<close> takes the first component of a pair as the host.
\<close>

datatype ('v, 'p) item = Host 'v | Pair 'v 'p

fun item_host :: "('v, 'p) item \<Rightarrow> 'v" where
  "item_host (Host h) = h"
| "item_host (Pair h p) = h"

text \<open>
  \<open>_do_in_host\<close> works on the dictionary of exceptions, the collector and the state.
  The collector is passed with its merge operation (\<open>update\<close> for a dictionary, \<open>append\<close>
  for a list, nothing for \<open>None\<close>) in place of the \<open>isinstance\<close> tests.
  \<open>do_in_host_try\<close> is the body of the \<open>try\<close> statement; on an exception
  \<open>do_in_host\<close> stores it under the host and raises it again.
\<close>

definition do_in_host_try ::
  "('v, 'e, 'r) env \<Rightarrow> 'v
     \<Rightarrow> ('v \<times> nat \<Rightarrow> ('v, 'p) item \<Rightarrow> 'v \<Rightarrow> 'v state \<Rightarrow> (('v, 'e) exn + 'c) \<times> 'v state)
     \<Rightarrow> ('v, 'p) item \<Rightarrow> 'v state \<Rightarrow> (('v, 'e) exn + 'c) \<times> 'v state" where
  "do_in_host_try env sessionId f iterable st =
     (case ensureDM env (item_host iterable) st of
        (Some e, st1) \<Rightarrow> (Inl e, st1)
      | (None, st1) \<Rightarrow> f (dmAt st1 (item_host iterable) None) iterable sessionId st1)"

definition do_in_host ::
  "('v, 'e, 'r) env \<Rightarrow> 'v
     \<Rightarrow> ('v \<times> nat \<Rightarrow> ('v, 'p) item \<Rightarrow> 'v \<Rightarrow> 'v state \<Rightarrow> (('v, 'e) exn + 'c) \<times> 'v state)
     \<Rightarrow> ('a \<Rightarrow> 'c \<Rightarrow> 'a) \<Rightarrow> ('v, 'p) item
     \<Rightarrow> ('v \<times> ('v, 'e) exn) list \<times> 'a \<times> 'v state
     \<Rightarrow> ('v, 'e) exn option \<times> (('v \<times> ('v, 'e) exn) list \<times> 'a \<times> 'v state)" where
  "do_in_host env sessionId f merge iterable w =
     (case w of (exceptions, collect, st) \<Rightarrow>
        (case do_in_host_try env sessionId f iterable st of
           (Inr res, st') \<Rightarrow> (None, (exceptions, merge collect res, st'))
         | (Inl e, st') \<Rightarrow>
             (Some e, (dict_set (item_host iterable) e exceptions, collect, st'))))"

text \<open>\<open>iterable = iterable or self._dmHosts\<close>: an empty iterable is replaced as well.\<close>

definition iterable_or :: "('v, 'p) item list \<Rightarrow> 'v state \<Rightarrow> ('v, 'p) item list" where
  "iterable_or iterable st =
     (if iterable = [] then map Host (lists st (dmHosts st)) else iterable)"

definition replicate_dm ::
  "('v, 'e, 'r) env \<Rightarrow> 'v
     \<Rightarrow> ('v \<times> nat \<Rightarrow> ('v, 'p) item \<Rightarrow> 'v \<Rightarrow> 'v state \<Rightarrow> (('v, 'e) exn + 'c) \<times> 'v state)
     \<Rightarrow> string \<Rightarrow> ('a \<Rightarrow> 'c \<Rightarrow> 'a) \<Rightarrow> 'a \<Rightarrow> ('v, 'p) item list \<Rightarrow> 'v state
     \<Rightarrow> (('v, 'e) exn + 'a) \<times> 'v state" where
  "replicate_dm env sessionId f action merge collect iterable st =
     (case tp_map (tp st) (do_in_host env sessionId f merge) (iterable_or iterable st)
             ([], collect, st) of
        (Some e, (thrExs, col, st')) \<Rightarrow> (Inl e, st')
      | (None, (thrExs, col, st')) \<Rightarrow>
          if thrExs \<noteq> [] then (Inl (SubManagerException action sessionId thrExs), st')
          else (Inr col, st'))"

definition no_collect :: "unit \<Rightarrow> 'c \<Rightarrow> unit" where
  "no_collect u res = u"

definition createSession_in ::
  "('v, 'e, 'r) env \<Rightarrow> 'v \<times> nat \<Rightarrow> ('v, 'p) item \<Rightarrow> 'v \<Rightarrow> 'v state
     \<Rightarrow> (('v, 'e) exn + 'r) \<times> 'v state" where
  "createSession_in env dm host sessionId st = client_call env dm (CreateSession sessionId) st"

definition createSession ::
  "('v, 'e, 'r) env \<Rightarrow> 'v \<Rightarrow> 'v state \<Rightarrow> (('v, 'e) exn + unit) \<times> 'v state" where
  "createSession env sessionId st =
     (case replicate_dm env sessionId
             (createSession_in env :: 'v \<times> nat \<Rightarrow> ('v, unit) item \<Rightarrow> _)
             ''creating sessions'' no_collect () [] st of
        (Inl e, st') \<Rightarrow> (Inl e, st')
      | (Inr u, st') \<Rightarrow> (Inr (), st'\<lparr>sessionIds := sessionIds st' @ [sessionId]\<rparr>))"

definition destroySession_in ::
  "('v, 'e, 'r) env \<Rightarrow> 'v \<times> nat \<Rightarrow> ('v, 'p) item \<Rightarrow> 'v \<Rightarrow> 'v state
     \<Rightarrow> (('v, 'e) exn + 'r) \<times> 'v state" where
  "destroySession_in env dm host sessionId st = client_call env dm (DestroySession sessionId) st"

definition destroySession ::
  "('v, 'e, 'r) env \<Rightarrow> 'v \<Rightarrow> 'v state \<Rightarrow> (('v, 'e) exn + unit) \<times> 'v state" where
  "destroySession env sessionId st =
     (case replicate_dm env sessionId
             (destroySession_in env :: 'v \<times> nat \<Rightarrow> ('v, unit) item \<Rightarrow> _)
             ''creating sessions'' no_collect () [] st of
        (Inl e, st') \<Rightarrow> (Inl e, st')
      | (Inr u, st') \<Rightarrow>
          (case list_remove sessionId (sessionIds st') of
             None \<Rightarrow> (Inl (ValueError sessionId), st')
           | Some l \<Rightarrow> (Inr (), st'\<lparr>sessionIds := l\<rparr>)))"

subsection \<open>addGraphSpec\<close>

text \<open>
  The graph specification is a list of drop-specification objects, given by their
  addresses.  The first loop checks each of them, puts it into the bucket of its
  partition and, in the same iteration, stores it in the session graph; an exception
  leaves the loop with the graph as it is at that moment.
\<close>

fun partition_loop ::
  "string \<Rightarrow> 'v list \<Rightarrow> nat list \<Rightarrow> (nat \<Rightarrow> 'v dropSpec) \<Rightarrow> ('v \<times> nat list) list \<Rightarrow> ('v \<rightharpoonup> nat)
     \<Rightarrow> ('v, 'e) exn option \<times> ('v \<times> nat list) list \<times> ('v \<rightharpoonup> nat)" where
  "partition_loop attr hosts [] ds perPartition g = (None, perPartition, g)"
| "partition_loop attr hosts (a # as) ds perPartition g =
     (case map_of (ds a) attr of
        None \<Rightarrow>
          (case spec_attr (ds a) ''oid'' of
             Inl e \<Rightarrow> (Some e, perPartition, g)
           | Inr oid \<Rightarrow> (Some (InvalidGraphException (NoAttribute oid attr)), perPartition, g))
      | Some part \<Rightarrow>
          if part \<notin> set hosts then
            (case spec_attr (ds a) ''oid'' of
               Inl e \<Rightarrow> (Some e, perPartition, g)
             | Inr oid \<Rightarrow>
                 (Some (InvalidGraphException (NotThisDM oid attr part)), perPartition, g))
          else
            (case uid_for_drop (ds a) of
               Inl e \<Rightarrow> (Some e, dd_append part a perPartition, g)
             | Inr uid \<Rightarrow>
                 partition_loop attr hosts as ds (dd_append part a perPartition)
                   (g(uid \<mapsto> a))))"

text \<open>
  \<open>graph_loader.removeUnmetRelationships\<close> is not part of this module.  It is a
  parameter \<open>rur\<close>: given a bucket and the store of specification objects it returns the
  removed relationships, or raises, and leaves the store with the bucket's objects edited
  in place.
\<close>

type_synonym ('v, 'e) rur =
  "nat list \<Rightarrow> (nat \<Rightarrow> 'v dropSpec) \<Rightarrow> (('v, 'e) exn + 'v DROPRel list) \<times> (nat \<Rightarrow> 'v dropSpec)"

fun remove_loop ::
  "('v, 'e) rur \<Rightarrow> nat list list \<Rightarrow> (nat \<Rightarrow> 'v dropSpec) \<Rightarrow> 'v DROPRel list
     \<Rightarrow> (('v, 'e) exn + 'v DROPRel list) \<times> (nat \<Rightarrow> 'v dropSpec)" where
  "remove_loop rur [] ds inter_partition_rels = (Inr inter_partition_rels, ds)"
| "remove_loop rur (dropSpecs # rest) ds inter_partition_rels =
     (case rur dropSpecs ds of
        (Inl e, ds') \<Rightarrow> (Inl e, ds')
      | (Inr rels, ds') \<Rightarrow> remove_loop rur rest ds' (inter_partition_rels @ rels))"

fun drop_rels_loop ::
  "'v DROPRel list \<Rightarrow> ('v \<rightharpoonup> nat) \<Rightarrow> (nat \<Rightarrow> 'v dropSpec)
     \<Rightarrow> ('v \<times> ('v \<times> 'v DROPRel list) list) list
     \<Rightarrow> ('v, 'e) exn + ('v \<times> ('v \<times> 'v DROPRel list) list) list" where
  "drop_rels_loop [] g ds m = Inr m"
| "drop_rels_loop (r # rs) g ds m =
     (case graph_at g ds (rhs r) of
        Inl e \<Rightarrow> Inl e
      | Inr sr \<Rightarrow>
     (case spec_attr sr ''node'' of
        Inl e \<Rightarrow> Inl e
      | Inr rhn \<Rightarrow>
     (case graph_at g ds (lhs r) of
        Inl e \<Rightarrow> Inl e
      | Inr sl \<Rightarrow>
     (case spec_attr sl ''node'' of
        Inl e \<Rightarrow> Inl e
      | Inr lhn \<Rightarrow>
          drop_rels_loop rs g ds (dd2_append rhn lhn r (dd2_append lhn rhn r m))))))"

text \<open>
  \<open>_addGraphSpec\<close> unpacks its item into host and bucket and sends the bucket to the
  child.  When the graph specification is empty, so is \<open>perPartition.items()\<close>, and
  \<open>replicate\<close> replaces it by the host list: the item is then a bare host, and
  \<open>host, graphSpec = host_and_graphspec\<close> unpacks the host name itself.  If it has two
  elements, the second one is sent as the graph specification to the child at that host
  (\<open>dm\<close> is the client of the whole name); otherwise the assignment raises
  \<open>ValueError\<close>.
\<close>

definition addGraphSpec_in ::
  "('v, 'e, 'r) env \<Rightarrow> 'v \<times> nat \<Rightarrow> ('v, nat list) item \<Rightarrow> 'v \<Rightarrow> 'v state
     \<Rightarrow> (('v, 'e) exn + 'r) \<times> 'v state" where
  "addGraphSpec_in env dm host_and_graphspec sessionId st =
     (case host_and_graphspec of
        Pair host graphSpec \<Rightarrow>
          client_call env dm (AddGraphSpec sessionId (map (dicts st) graphSpec)) st
      | Host host_and_graphspec' \<Rightarrow>
          (case unpack_env env host_and_graphspec' of
             Some (host, graphSpec) \<Rightarrow>
               client_call env dm (AddGraphSpecValue sessionId graphSpec) st
           | None \<Rightarrow> (Inl (ValueError host_and_graphspec'), st)))"

definition addGraphSpec ::
  "('v, 'e, 'r) env \<Rightarrow> ('v, 'e) rur \<Rightarrow> 'v \<Rightarrow> nat list \<Rightarrow> 'v state
     \<Rightarrow> (('v, 'e) exn + unit) \<times> 'v state" where
  "addGraphSpec env rur sessionId graphSpec st =
     (case partition_loop (partitionAttr st) (lists st (dmHosts st)) graphSpec (dicts st) []
             (graph st) of
        (Some e, perPartition, g) \<Rightarrow> (Inl e, st\<lparr>graph := g\<rparr>)
      | (None, perPartition, g) \<Rightarrow>
     (case remove_loop rur (map snd perPartition) (dicts st) [] of
        (Inl e, ds) \<Rightarrow> (Inl e, st\<lparr>graph := g, dicts := ds\<rparr>)
      | (Inr inter_partition_rels, ds) \<Rightarrow>
     (case sanitize_relations inter_partition_rels g ds of
        Inl e \<Rightarrow> (Inl e, st\<lparr>graph := g, dicts := ds\<rparr>)
      | Inr rels \<Rightarrow>
     (case drop_rels_loop rels g ds [] of
        Inl e \<Rightarrow> (Inl e, st\<lparr>graph := g, dicts := ds\<rparr>)
      | Inr m \<Rightarrow>
     (case replicate_dm env sessionId (addGraphSpec_in env)
             ''appending graphSpec to individual DMs'' no_collect ()
             (map (\<lambda>(host, bucket). Pair host bucket) perPartition)
             (st\<lparr>graph := g, dicts := ds, drop_rels := (drop_rels st)(sessionId \<mapsto> m)\<rparr>) of
        (Inl e, st') \<Rightarrow> (Inl e, st')
      | (Inr u, st') \<Rightarrow> (Inr (), st'))))))"

subsection \<open>deploySession\<close>

definition deploySession_in ::
  "('v, 'e, 'r) env \<Rightarrow> 'v \<times> nat \<Rightarrow> ('v, 'p) item \<Rightarrow> 'v \<Rightarrow> 'v state
     \<Rightarrow> (('v, 'e) exn + 'r) \<times> 'v state" where
  "deploySession_in env dm host sessionId st = client_call env dm (DeploySession sessionId) st"

text \<open>
  \<open>_triggerDrops\<close> and \<open>_add_node_subscriptions_wrapper\<close> address the node at
  \<open>NODE_DEFAULT_REST_PORT\<close>, a constant of \<open>dfms.manager.constants\<close> that is a parameter
  here.  They store an exception under the host and do not raise it again.
\<close>

definition triggerDrops ::
  "('v, 'e, 'r) env \<Rightarrow> nat \<Rightarrow> 'v \<Rightarrow> 'v \<times> 'v list
     \<Rightarrow> ('v \<times> ('v, 'e) exn) list \<times> 'v state
     \<Rightarrow> ('v, 'e) exn option \<times> (('v \<times> ('v, 'e) exn) list \<times> 'v state)" where
  "triggerDrops env node_port session_id host_and_uids w =
     (case w of (exceptions, st) \<Rightarrow>
        (case client_call env (dmAt st (fst host_and_uids) (Some node_port))
                (TriggerDrops session_id (snd host_and_uids)) st of
           (Inl e, st') \<Rightarrow> (None, (dict_set (fst host_and_uids) e exceptions, st'))
         | (Inr r, st') \<Rightarrow> (None, (exceptions, st'))))"

definition add_node_subscriptions_wrapper ::
  "('v, 'e, 'r) env \<Rightarrow> nat \<Rightarrow> 'v \<Rightarrow> 'v \<times> ('v \<times> 'v DROPRel list) list
     \<Rightarrow> ('v \<times> ('v, 'e) exn) list \<times> 'v state
     \<Rightarrow> ('v, 'e) exn option \<times> (('v \<times> ('v, 'e) exn) list \<times> 'v state)" where
  "add_node_subscriptions_wrapper env node_port sessionId host_and_subscriptions w =
     (case w of (exceptions, st) \<Rightarrow>
        (case client_call env (dmAt st (fst host_and_subscriptions) (Some node_port))
                (AddNodeSubscriptions sessionId (snd host_and_subscriptions)) st of
           (Inl e, st') \<Rightarrow> (None, (dict_set (fst host_and_subscriptions) e exceptions, st'))
         | (Inr r, st') \<Rightarrow> (None, (exceptions, st'))))"

text \<open>The first phase: the subscriptions, when the stored map is not empty.\<close>

definition deploy_subscriptions ::
  "('v, 'e, 'r) env \<Rightarrow> nat \<Rightarrow> 'v \<Rightarrow> ('v \<times> ('v \<times> 'v DROPRel list) list) list \<Rightarrow> 'v state
     \<Rightarrow> ('v, 'e) exn option \<times> 'v state" where
  "deploy_subscriptions env node_port sessionId rels st =
     (if rels \<noteq> [] then
        (case tp_map (tp st) (add_node_subscriptions_wrapper env node_port sessionId) rels
                ([], st) of
           (Some e, (thrExs, st')) \<Rightarrow> (Some e, st')
         | (None, (thrExs, st')) \<Rightarrow>
             if thrExs \<noteq> [] then (Some (DaliugeException (SubscriptionErrors sessionId) thrExs), st')
             else (None, st'))
      else (None, st))"

text \<open>
  The third phase.  \<open>set(completedDrops) - set(self._graph)\<close> is given by its elements
  in the order of their first occurrence.
\<close>

definition deploy_completed ::
  "('v, 'e, 'r) env \<Rightarrow> nat \<Rightarrow> 'v \<Rightarrow> 'v list \<Rightarrow> 'v state
     \<Rightarrow> (('v, 'e) exn + unit) \<times> 'v state" where
  "deploy_completed env node_port sessionId completedDrops st =
     (if completedDrops \<noteq> [] then
        (if filter (\<lambda>uid. graph st uid = None) (remdups completedDrops) \<noteq> [] then
           (Inl (DaliugeException
                  (CompletedNotFound (filter (\<lambda>uid. graph st uid = None) (remdups completedDrops)))
                  []), st)
         else
           (case group_by_node completedDrops (graph st) (dicts st) of
              Inl e \<Rightarrow> (Inl e, st)
            | Inr completed_by_host \<Rightarrow>
                (case tp_map (tp st) (triggerDrops env node_port sessionId) completed_by_host
                        ([], st) of
                   (Some e, (thrExs, st')) \<Rightarrow> (Inl e, st')
                 | (None, (thrExs, st')) \<Rightarrow>
                     if thrExs \<noteq> [] then
                       (Inl (DaliugeException (TriggerErrors sessionId) thrExs), st')
                     else (Inr (), st'))))
      else (Inr (), st))"

definition deploySession ::
  "('v, 'e, 'r) env \<Rightarrow> nat \<Rightarrow> 'v \<Rightarrow> 'v list \<Rightarrow> 'v state
     \<Rightarrow> (('v, 'e) exn + unit) \<times> 'v state" where
  "deploySession env node_port sessionId completedDrops st =
     (case drop_rels st sessionId of
        None \<Rightarrow> (Inl (KeyError (Val sessionId)), st)
      | Some rels \<Rightarrow>
     (case deploy_subscriptions env node_port sessionId rels st of
        (Some e, st1) \<Rightarrow> (Inl e, st1)
      | (None, st1) \<Rightarrow>
     (case replicate_dm env sessionId
             (deploySession_in env :: 'v \<times> nat \<Rightarrow> ('v, unit) item \<Rightarrow> _)
             ''deploying session'' no_collect () [] st1 of
        (Inl e, st2) \<Rightarrow> (Inl e, st2)
      | (Inr u, st2) \<Rightarrow> deploy_completed env node_port sessionId completedDrops st2)))"

section \<open>DataIslandManager and MasterManager\<close>

text \<open>
  \<open>DataIslandManager.__init__\<close> runs the constructor of the base class and then assigns
  the caller's list to \<open>_nodes\<close> as well.  The two default ports are parameters.
\<close>

definition DataIslandManager_init :: "nat \<Rightarrow> nat \<Rightarrow> 'v state \<Rightarrow> 'v state" where
  "DataIslandManager_init node_port hosts w =
     (CompositeManager_init node_port ''node'' ''dfmsNM'' ''nm'' hosts w)\<lparr>nodes := hosts\<rparr>"

definition DataIslandManager_add_node :: "'v \<Rightarrow> 'v state \<Rightarrow> 'v state" where
  "DataIslandManager_add_node node st =
     list_append (dmHosts (add_node node st)) node (add_node node st)"

definition MasterManager_init :: "nat \<Rightarrow> nat \<Rightarrow> 'v state \<Rightarrow> 'v state" where
  "MasterManager_init island_port hosts w =
     CompositeManager_init island_port ''island'' ''dfmsDIM'' ''dim'' hosts w"

section \<open>Notions used in the statements\<close>

text \<open>
  A fan-out succeeds on every child when, taking the items one after the other, the body
  of \<open>_do_in_host\<close> returns for each of them.
\<close>

fun every_child_ok ::
  "('v, 'e, 'r) env \<Rightarrow> 'v
     \<Rightarrow> ('v \<times> nat \<Rightarrow> ('v, 'p) item \<Rightarrow> 'v \<Rightarrow> 'v state \<Rightarrow> (('v, 'e) exn + 'c) \<times> 'v state)
     \<Rightarrow> ('v, 'p) item list \<Rightarrow> 'v state \<Rightarrow> bool" where
  "every_child_ok env sessionId f [] st = True"
| "every_child_ok env sessionId f (x # xs) st =
     (case do_in_host_try env sessionId f x st of
        (Inl e, st') \<Rightarrow> False
      | (Inr res, st') \<Rightarrow> every_child_ok env sessionId f xs st')"

text \<open>
  \<open>extends_trace st st'\<close>: the state \<open>st'\<close> is \<open>st\<close> with more events in its trace
  and nothing else changed.  \<open>call_only f\<close>: the per-child function \<open>f\<close> does nothing to
  the state but add events.
\<close>

definition extends_trace :: "'v state \<Rightarrow> 'v state \<Rightarrow> bool" where
  "extends_trace st st' \<longleftrightarrow> (\<exists>t. st' = st\<lparr>trace := trace st @ t\<rparr>)"

definition call_only ::
  "('v \<times> nat \<Rightarrow> ('v, 'p) item \<Rightarrow> 'v \<Rightarrow> 'v state \<Rightarrow> (('v, 'e) exn + 'c) \<times> 'v state) \<Rightarrow> bool" where
  "call_only f \<longleftrightarrow> (\<forall>dm x s st. extends_trace st (snd (f dm x s st)))"

text \<open>The fan-out of an operation over the host list succeeds on every child.\<close>

definition createSession_ok :: "('v, 'e, 'r) env \<Rightarrow> 'v \<Rightarrow> 'v state \<Rightarrow> bool" where
  "createSession_ok env sessionId st =
     every_child_ok env sessionId
       (createSession_in env :: 'v \<times> nat \<Rightarrow> ('v, unit) item \<Rightarrow> _)
       (map Host (get_dmHosts st)) st"

definition destroySession_ok :: "('v, 'e, 'r) env \<Rightarrow> 'v \<Rightarrow> 'v state \<Rightarrow> bool" where
  "destroySession_ok env sessionId st =
     every_child_ok env sessionId
       (destroySession_in env :: 'v \<times> nat \<Rightarrow> ('v, unit) item \<Rightarrow> _)
       (map Host (get_dmHosts st)) st"

definition deploySession_ok :: "('v, 'e, 'r) env \<Rightarrow> 'v \<Rightarrow> 'v state \<Rightarrow> bool" where
  "deploySession_ok env sessionId st =
     every_child_ok env sessionId
       (deploySession_in env :: 'v \<times> nat \<Rightarrow> ('v, unit) item \<Rightarrow> _)
       (map Host (get_dmHosts st)) st"

text \<open>
  A drop specification is accepted by the first loop of \<open>addGraphSpec\<close> when it has the
  partition attribute with one of the hosts as its value, and it can be stored in the
  graph when it has a \<open>uid\<close> or an \<open>oid\<close>.  \<open>invalid_msg\<close> is what the exception says
  about a specification that is not accepted.
\<close>

definition partition_ok :: "string \<Rightarrow> 'v list \<Rightarrow> 'v dropSpec \<Rightarrow> bool" where
  "partition_ok attr hosts d =
     (case map_of d attr of None \<Rightarrow> False | Some part \<Rightarrow> part \<in> set hosts)"

definition valid_spec :: "string \<Rightarrow> 'v list \<Rightarrow> 'v dropSpec \<Rightarrow> bool" where
  "valid_spec attr hosts d \<longleftrightarrow>
     partition_ok attr hosts d \<and> (map_of d ''uid'' \<noteq> None \<or> map_of d ''oid'' \<noteq> None)"

definition invalid_msg :: "string \<Rightarrow> 'v dropSpec \<Rightarrow> 'v \<Rightarrow> 'v graph_msg" where
  "invalid_msg attr d oid =
     (case map_of d attr of None \<Rightarrow> NoAttribute oid attr | Some part \<Rightarrow> NotThisDM oid attr part)"


text \<open>An inter-partition map is symmetric.\<close>

definition symmetric_map :: "('v \<times> ('v \<times> 'a list) list) list \<Rightarrow> bool" where
  "symmetric_map m \<longleftrightarrow> (\<forall>a b. dd2_get m a b = dd2_get m b a)"

text \<open>
  \<open>inter_partition_rels\<close> is the value of the local variable of that name when
  \<open>addGraphSpec\<close> starts to build the inter-partition map: the relationships removed
  from the buckets, after \<open>sanitize_relations\<close>; there is none if the call has raised
  before.  \<open>node_of st uid\<close> is \<open>self._graph[uid]['node']\<close>, if both lookups succeed.
  \<open>rels_between st rels a b\<close> lists the relationships of \<open>rels\<close> between the nodes
  \<open>a\<close> and \<open>b\<close> in the order of \<open>rels\<close>: one whose left side is on \<open>a\<close> and whose
  right side is on \<open>b\<close>, or the other way round (twice, if both are the case).
\<close>

definition inter_partition_rels ::
  "('v, 'e) rur \<Rightarrow> nat list \<Rightarrow> 'v state \<Rightarrow> 'v DROPRel list option" where
  "inter_partition_rels rur graphSpec st =
     (case (partition_loop (partitionAttr st) (lists st (dmHosts st)) graphSpec (dicts st) []
              (graph st) :: ('v, 'e) exn option \<times> _) of
        (Some e, perPartition, g) \<Rightarrow> None
      | (None, perPartition, g) \<Rightarrow>
     (case remove_loop rur (map snd perPartition) (dicts st) [] of
        (Inl e, ds) \<Rightarrow> None
      | (Inr rels, ds) \<Rightarrow>
     (case (sanitize_relations rels g ds :: ('v, 'e) exn + _) of
        Inl e \<Rightarrow> None
      | Inr rels' \<Rightarrow> Some rels')))"

definition node_of :: "'v state \<Rightarrow> 'v \<Rightarrow> 'v option" where
  "node_of st uid = (case graph st uid of None \<Rightarrow> None | Some a \<Rightarrow> map_of (dicts st a) ''node'')"

definition rels_between :: "'v state \<Rightarrow> 'v DROPRel list \<Rightarrow> 'v \<Rightarrow> 'v \<Rightarrow> 'v DROPRel list" where
  "rels_between st rels a b =
     concat (map (\<lambda>r. (if node_of st (lhs r) = Some a \<and> node_of st (rhs r) = Some b then [r] else [])
                     @ (if node_of st (rhs r) = Some a \<and> node_of st (lhs r) = Some b then [r] else []))
               rels)"

text \<open>
  Every key of the graph is the identifier of the specification stored under it, as it
  is in a graph built by \<open>addGraphSpec\<close> alone.
\<close>

definition graph_by_uid :: "('v \<rightharpoonup> nat) \<Rightarrow> (nat \<Rightarrow> 'v dropSpec) \<Rightarrow> bool" where
  "graph_by_uid g ds \<longleftrightarrow>
     (\<forall>k a. g k = Some a \<longrightarrow>
        (case map_of (ds a) ''uid'' of Some u \<Rightarrow> u = k | None \<Rightarrow> map_of (ds a) ''oid'' = Some k))"

text \<open>Sequences of calls of the four operations of a session.\<close>

datatype 'v op =
    OpCreateSession 'v
  | OpDestroySession 'v
  | OpAddGraphSpec 'v "nat list"
  | OpDeploySession 'v "'v list"

fun run_op ::
  "('v, 'e, 'r) env \<Rightarrow> ('v, 'e) rur \<Rightarrow> nat \<Rightarrow> 'v op \<Rightarrow> 'v state \<Rightarrow> 'v state" where
  "run_op env rur node_port (OpCreateSession s) st = snd (createSession env s st)"
| "run_op env rur node_port (OpDestroySession s) st = snd (destroySession env s st)"
| "run_op env rur node_port (OpAddGraphSpec s graphSpec) st = snd (addGraphSpec env rur s graphSpec st)"
| "run_op env rur node_port (OpDeploySession s completed) st =
     snd (deploySession env node_port s completed st)"

fun run_ops ::
  "('v, 'e, 'r) env \<Rightarrow> ('v, 'e) rur \<Rightarrow> nat \<Rightarrow> 'v op list \<Rightarrow> 'v state \<Rightarrow> 'v state" where
  "run_ops env rur node_port [] st = st"
| "run_ops env rur node_port (c # cs) st = run_ops env rur node_port cs (run_op env rur node_port c st)"

fun adds_graph :: "'v \<Rightarrow> 'v op \<Rightarrow> bool" where
  "adds_graph sessionId (OpAddGraphSpec s graphSpec) = (s = sessionId)"
| "adds_graph sessionId _ = False"

text \<open>The first two phases of \<open>deploySession\<close>: the subscriptions and the deployment.\<close>

definition deploy_to_children ::
  "('v, 'e, 'r) env \<Rightarrow> nat \<Rightarrow> 'v \<Rightarrow> 'v state \<Rightarrow> (('v, 'e) exn + unit) \<times> 'v state" where
  "deploy_to_children env node_port sessionId st =
     (case drop_rels st sessionId of
        None \<Rightarrow> (Inl (KeyError (Val sessionId)), st)
      | Some rels \<Rightarrow>
     (case deploy_subscriptions env node_port sessionId rels st of
        (Some e, st1) \<Rightarrow> (Inl e, st1)
      | (None, st1) \<Rightarrow>
          replicate_dm env sessionId
            (deploySession_in env :: 'v \<times> nat \<Rightarrow> ('v, unit) item \<Rightarrow> _)
            ''deploying session'' no_collect () [] st1))"


section \<open>A concrete island\<close>

text \<open>
  A world in which the list \<open>["h1", "h2"]\<close> is the list object at address 0, and the
  \<open>DataIslandManager\<close> built on that list with 8000 as the port of the node managers.
\<close>

definition world_h1h2 :: "string state" where
  "world_h1h2 =
     \<lparr>dmPort = 0, partitionAttr = [], dmExec = [], subDmId = [], dmHosts = 0,
      graph = Map.empty, drop_rels = Map.empty, sessionIds = [], nodes = 0, tp = 0,
      lists = (\<lambda>a. if a = 0 then [''h1'', ''h2''] else []), next_list = 1,
      dicts = (\<lambda>a. []), trace = []\<rparr>"

definition island_h1h2 :: "string state" where
  "island_h1h2 = DataIslandManager_init 8000 0 world_h1h2"

text \<open>Unpacking a string into two: its two characters, when it has exactly two.\<close>

fun unpack_str :: "string \<Rightarrow> (string \<times> string) option" where
  "unpack_str [a, b] = Some ([a], [b])"
| "unpack_str _ = None"

text \<open>
  Children that are all up and answer every call, except that the host \<open>h\<close> raises on the
  calls selected by \<open>bad\<close>.
\<close>

definition env_raises :: "string \<Rightarrow> (string rpc \<Rightarrow> bool) \<Rightarrow> (string, string, unit) env" where
  "env_raises h bad =
     \<lparr>probe_env = (\<lambda>tr host p. Inr True),
      exec_env = (\<lambda>tr host. Inr 0),
      rpc_env = (\<lambda>tr host p c. if host = h \<and> bad c then Inl ''refused'' else Inr ()),
      unpack_env = unpack_str\<rparr>"

text \<open>
  An island built on the list \<open>["h1"]\<close>, so that its pool has one worker, to which four
  hosts are added afterwards.
\<close>

definition island_grown :: "string state" where
  "island_grown =
     addDmHost ''h5'' (addDmHost ''h4'' (addDmHost ''h3'' (addDmHost ''h2''
       (DataIslandManager_init 8000 0
          (world_h1h2\<lparr>lists := (\<lambda>a. if a = 0 then [''h1''] else [])\<rparr>)))))"

fun is_CreateSession :: "'v rpc \<Rightarrow> bool" where
  "is_CreateSession (CreateSession s) = True"
| "is_CreateSession _ = False"

fun is_DestroySession :: "'v rpc \<Rightarrow> bool" where
  "is_DestroySession (DestroySession s) = True"
| "is_DestroySession _ = False"




text \<open>
  The island with two specification objects at the addresses 0 and 1:
  \<open>{oid: A, node: h1}\<close> and \<open>{oid: B, node: h3}\<close>; \<open>{oid: A, node: h1}\<close> and
  \<open>{oid: B, node: h2}\<close>; and the latter two with the unique identifiers \<open>uA\<close> and \<open>uB\<close>.
\<close>

definition island_A_B3 :: "string state" where
  "island_A_B3 =
     island_h1h2\<lparr>dicts := (\<lambda>a. if a = 0 then [(''oid'', ''A''), (''node'', ''h1'')]
                              else if a = 1 then [(''oid'', ''B''), (''node'', ''h3'')] else [])\<rparr>"

definition island_A_B :: "string state" where
  "island_A_B =
     island_h1h2\<lparr>dicts := (\<lambda>a. if a = 0 then [(''oid'', ''A''), (''node'', ''h1'')]
                              else if a = 1 then [(''oid'', ''B''), (''node'', ''h2'')] else [])\<rparr>"

definition island_uA_uB :: "string state" where
  "island_uA_uB =
     island_h1h2\<lparr>dicts := (\<lambda>a. if a = 0 then [(''oid'', ''A''), (''uid'', ''uA''), (''node'', ''h1'')]
                              else if a = 1 then [(''oid'', ''B''), (''uid'', ''uB''), (''node'', ''h2'')]
                              else [])\<rparr>"

text \<open>
  Two instances of \<open>removeUnmetRelationships\<close>: one that finds nothing to remove, and one
  that removes from the bucket of the object at address 1 the edge from \<open>A\<close> to \<open>B\<close>, which
  it names by the object identifiers.
\<close>

definition rur_none :: "(string, 'e) rur" where
  "rur_none bucket ds = (Inr [], ds)"

definition rur_edge_A_B :: "(string, 'e) rur" where
  "rur_edge_A_B bucket ds =
     (Inr (if 1 \<in> set bucket then [DROPRel ''A'' ''STREAM'' ''B''] else []), ds)"

section \<open>The reachability probe of \<open>dfms.utils\<close>\<close>

text \<open>
  \<open>writeToRemotePort\<close> reads the clock, connects, and sleeps.  Times are integers, in
  milliseconds; the rounding of the floating-point numbers of the code is not modelled.
  The network decides what each connection attempt does: the outcome of \<open>connect\<close>, the
  outcome of \<open>send\<close> when data is given, and the time the attempt took.  A sleep of 0.1
  seconds takes 100 milliseconds and the time by which it overslept.  The clock of a run
  holds the current time and the numbers of attempts and sleeps so far.
\<close>

datatype outcome = Connected | SocketTimeout | SocketError nat


record attempt =
  conn :: outcome
  sent :: outcome
  took :: nat





text \<open>
  The outcome of the \<open>try\<close> block, the clock after it and after the sleep, and the test
  of the \<open>ECONNREFUSED\<close> handler, which reads the clock again.
\<close>

definition attempt_outcome :: "'d option \<Rightarrow> attempt \<Rightarrow> outcome" where
  "attempt_outcome data a =
     (case conn a of
        Connected \<Rightarrow> (case data of None \<Rightarrow> Connected | Some d \<Rightarrow> sent a)
      | SocketTimeout \<Rightarrow> SocketTimeout
      | SocketError e \<Rightarrow> SocketError e)"











section \<open>The thread pool and the fan-out\<close>

text \<open>
  When no task raises, cutting the iterable into chunks makes no difference: the pool
  runs the function on every item in turn.
\<close>

lemma py_map_append:
  "py_map f (xs @ ys) w =
     (case py_map f xs w of (Some e, w') \<Rightarrow> (Some e, w') | (None, w') \<Rightarrow> py_map f ys w')"
  by (induction xs arbitrary: w) (auto split: prod.splits option.splits)

lemma run_tasks_None:
  "fst (run_tasks f cs w) = None \<Longrightarrow> run_tasks f cs w = py_map f (concat cs) w"
proof (induction cs arbitrary: w)
  case Nil
  then show ?case by simp
next
  case (Cons c cs)
  then show ?case
    by (auto simp: py_map_append split: prod.splits option.splits)
qed

lemma run_tasks_Some:
  "fst (py_map f (concat cs) w) = None \<Longrightarrow> fst (run_tasks f cs w) = None"
proof (induction cs arbitrary: w)
  case Nil
  then show ?case by simp
next
  case (Cons c cs)
  obtain r w' where c: "py_map f c w = (r, w')" by (cases "py_map f c w")
  with Cons.prems have r: "r = None" and rest: "fst (py_map f (concat cs) w') = None"
    by (auto simp: py_map_append split: option.splits)
  from Cons.IH [OF rest] c r show ?case
    by (auto split: prod.splits)
qed

lemma concat_get_tasks: "0 < n \<Longrightarrow> concat (get_tasks n xs) = xs"
proof (induction n xs rule: get_tasks.induct)
  case (1 n xs)
  then show ?case
    by (subst get_tasks.simps) auto
qed

lemma chunksize_pos: "0 < n \<Longrightarrow> 0 < chunksize pool n"
  by (auto simp: chunksize_def intro: Nat.gr0I)

lemma get_tasks_Nil [simp]: "get_tasks n [] = []"
  by (subst get_tasks.simps) simp

lemma tp_map_None:
  "fst (tp_map pool f xs w) = None \<Longrightarrow> tp_map pool f xs w = py_map f xs w"
  by (cases xs) (auto simp: tp_map_def dest!: run_tasks_None simp: concat_get_tasks chunksize_pos)

lemma tp_map_None_iff:
  "fst (tp_map pool f xs w) = None \<longleftrightarrow> fst (py_map f xs w) = None"
proof (cases xs)
  case Nil
  then show ?thesis by (simp add: tp_map_def)
next
  case (Cons a list)
  then have "concat (get_tasks (chunksize pool (length xs)) xs) = xs"
    by (simp add: concat_get_tasks chunksize_pos)
  then show ?thesis
    using run_tasks_Some [of f "get_tasks (chunksize pool (length xs)) xs" w]
      run_tasks_None [of f "get_tasks (chunksize pool (length xs)) xs" w]
    by (auto simp: tp_map_def)
qed

lemma py_map_do_in_host_ok:
  "fst (py_map (do_in_host env sid f merge) xs (exs, col, st)) = None
     \<longleftrightarrow> every_child_ok env sid f xs st"
  by (induction xs arbitrary: exs col st)
     (auto simp: do_in_host_def split: prod.splits sum.splits option.splits)

lemma py_map_do_in_host_exs:
  "py_map (do_in_host env sid f merge) xs (exs, col, st) = (None, exs', col', st')
     \<Longrightarrow> exs' = exs"
  by (induction xs arbitrary: exs col st)
     (auto simp: do_in_host_def split: prod.splits sum.splits option.splits)

lemma tp_map_do_in_host_exs:
  assumes "tp_map pool (do_in_host env sid f merge) xs (exs, col, st) = (None, exs', col', st')"
  shows "exs' = exs"
proof -
  from assms have "fst (tp_map pool (do_in_host env sid f merge) xs (exs, col, st)) = None"
    by simp
  from tp_map_None [OF this] assms
  have "py_map (do_in_host env sid f merge) xs (exs, col, st) = (None, exs', col', st')"
    by simp
  then show ?thesis by (rule py_map_do_in_host_exs)
qed




lemma replicate_dm_result:
  "replicate_dm env sid f action merge collect iterable st =
     (case tp_map (tp st) (do_in_host env sid f merge) (iterable_or iterable st) ([], collect, st) of
        (Some e, (thrExs, col, st')) \<Rightarrow> (Inl e, st')
      | (None, (thrExs, col, st')) \<Rightarrow> (Inr col, st'))"
  by (auto simp: replicate_dm_def split: prod.splits option.splits dest: tp_map_do_in_host_exs)

lemma replicate_dm_ok_iff:
  "(\<exists>col. fst (replicate_dm env sid f action merge collect iterable st) = Inr col)
     \<longleftrightarrow> every_child_ok env sid f (iterable_or iterable st) st"
  unfolding replicate_dm_result
  using tp_map_None_iff [of "tp st" "do_in_host env sid f merge" "iterable_or iterable st" "([], collect, st)"]
    py_map_do_in_host_ok [of env sid f merge "iterable_or iterable st" "[]" collect st]
  by (auto split: prod.splits option.splits)

section \<open>Operations on children change nothing but the trace\<close>

lemma extends_trace_refl [simp]: "extends_trace st st"
  by (auto simp: extends_trace_def intro: exI [of _ "[]"])

lemma extends_trace_trans: "extends_trace a b \<Longrightarrow> extends_trace b c \<Longrightarrow> extends_trace a c"
  by (auto simp: extends_trace_def)

lemma extends_trace_fields:
  assumes "extends_trace st st'"
  shows "sessionIds st' = sessionIds st" "drop_rels st' = drop_rels st" "graph st' = graph st"
    "dicts st' = dicts st" "lists st' = lists st" "dmHosts st' = dmHosts st" "tp st' = tp st"
    "dmPort st' = dmPort st" "nodes st' = nodes st" "partitionAttr st' = partitionAttr st"
  using assms by (auto simp: extends_trace_def)

lemma extends_trace_record_event [simp]: "extends_trace st (record_event ev st)"
  by (auto simp: extends_trace_def record_event_def)

lemma probe_extends: "probe env h p st = (r, st') \<Longrightarrow> extends_trace st st'"
  by (auto simp: probe_def)

lemma startDM_extends: "startDM env h st = (r, st') \<Longrightarrow> extends_trace st st'"
  by (auto simp: startDM_def Let_def split: sum.splits if_splits)

lemma ensureDM_extends: "ensureDM env h st = (r, st') \<Longrightarrow> extends_trace st st'"
  unfolding ensureDM_def
  by (auto split: prod.splits sum.splits bool.splits option.splits
      dest!: probe_extends startDM_extends intro: extends_trace_trans)

lemma client_call_extends: "client_call env dm c st = (r, st') \<Longrightarrow> extends_trace st st'"
  by (auto simp: client_call_def split: sum.splits)

lemma do_in_host_try_extends:
  assumes "call_only f"
  shows "extends_trace st (snd (do_in_host_try env sid f x st))"
proof (cases "ensureDM env (item_host x) st")
  case (Pair r st1)
  then have 1: "extends_trace st st1" by (rule ensureDM_extends)
  show ?thesis
  proof (cases r)
    case None
    from assms have "extends_trace st1 (snd (f (dmAt st1 (item_host x) None) x sid st1))"
      unfolding call_only_def by blast
    with 1 Pair None show ?thesis
      by (auto simp: do_in_host_try_def intro: extends_trace_trans)
  next
    case (Some e)
    with 1 Pair show ?thesis by (simp add: do_in_host_try_def)
  qed
qed

lemma py_map_extends:
  assumes step: "\<forall>x w. extends_trace (p w) (p (snd (f x w)))"
  shows "extends_trace (p w) (p (snd (py_map f xs w)))"
proof (induction xs arbitrary: w)
  case Nil
  show ?case by simp
next
  case (Cons x xs)
  obtain r1 w1 where fx: "f x w = (r1, w1)" by (cases "f x w")
  with step have 1: "extends_trace (p w) (p w1)" by (metis snd_conv)
  show ?case
  proof (cases r1)
    case None
    with fx have "py_map f (x # xs) w = py_map f xs w1" by simp
    with 1 Cons.IH [of w1] show ?thesis by (auto intro: extends_trace_trans)
  next
    case (Some a)
    with fx have "py_map f (x # xs) w = (Some a, w1)" by simp
    with 1 show ?thesis by simp
  qed
qed

lemma run_tasks_extends:
  assumes step: "\<forall>x w. extends_trace (p w) (p (snd (f x w)))"
  shows "extends_trace (p w) (p (snd (run_tasks f cs w)))"
proof (induction cs arbitrary: w)
  case Nil
  show ?case by simp
next
  case (Cons c cs)
  obtain r1 w1 where c: "py_map f c w = (r1, w1)" by (cases "py_map f c w")
  obtain r2 w2 where cs: "run_tasks f cs w1 = (r2, w2)" by (cases "run_tasks f cs w1")
  from c have 1: "extends_trace (p w) (p w1)"
    using py_map_extends [of p f w c, OF step] by simp
  from cs have 2: "extends_trace (p w1) (p w2)"
    using Cons.IH [of w1] by simp
  from c cs have "snd (run_tasks f (c # cs) w) = w2" by simp
  with 1 2 show ?case by (auto intro: extends_trace_trans)
qed

lemma tp_map_extends:
  assumes step: "\<forall>x w. extends_trace (p w) (p (snd (f x w)))"
  shows "extends_trace (p w) (p (snd (tp_map pool f xs w)))"
  unfolding tp_map_def using step by (rule run_tasks_extends)

lemma do_in_host_extends:
  assumes f: "call_only f"
  shows "extends_trace (snd (snd w)) (snd (snd (snd (do_in_host env sid f merge x w))))"
proof -
  obtain exs col st where w: "w = (exs, col, st)" by (cases w)
  have "extends_trace st (snd (do_in_host_try env sid f x st))"
    using f by (rule do_in_host_try_extends)
  then show ?thesis using w
    by (auto simp: do_in_host_def split: prod.splits sum.splits)
qed

lemma replicate_dm_extends:
  assumes f: "call_only f"
  shows "extends_trace st (snd (replicate_dm env sid f action merge collect iterable st))"
proof -
  have step: "\<forall>x w. extends_trace (snd (snd w)) (snd (snd (snd (do_in_host env sid f merge x w))))"
    using do_in_host_extends [OF f] by blast
  have "extends_trace st
      (snd (snd (snd (tp_map (tp st) (do_in_host env sid f merge) (iterable_or iterable st)
         ([], collect, st)))))"
    using tp_map_extends [of "\<lambda>w. snd (snd w)" "do_in_host env sid f merge" "([], collect, st)",
        OF step]
    by simp
  then show ?thesis
    by (auto simp: replicate_dm_def split: prod.splits option.splits)
qed

lemma createSession_in_only [simp]: "call_only (createSession_in env)"
  by (auto simp: call_only_def createSession_in_def intro: client_call_extends [OF surjective_pairing])

lemma destroySession_in_only [simp]: "call_only (destroySession_in env)"
  by (auto simp: call_only_def destroySession_in_def intro: client_call_extends [OF surjective_pairing])

lemma deploySession_in_only [simp]: "call_only (deploySession_in env)"
  by (auto simp: call_only_def deploySession_in_def intro: client_call_extends [OF surjective_pairing])

lemma addGraphSpec_in_only [simp]: "call_only (addGraphSpec_in env)"
  by (auto simp: call_only_def addGraphSpec_in_def split: item.splits option.splits
      intro: client_call_extends [OF surjective_pairing])

section \<open>The shared host list of the DataIslandManager\<close>

text \<open>
  C10.  In a \<open>DataIslandManager\<close> the fields \<open>_nodes\<close> and \<open>_dmHosts\<close> refer to the same
  list object.  Hence one \<open>add_node n\<close> appends \<open>n\<close> twice to that list, seen through
  \<open>nodes\<close> as well as through \<open>dmHosts\<close>, and a host added with \<open>addDmHost\<close> is in
  \<open>nodes\<close> too.
\<close>

theorem DataIslandManager_shared_list:
  "nodes (DataIslandManager_init p a w) = dmHosts (DataIslandManager_init p a w)
   \<and> get_nodes (DataIslandManager_add_node n (DataIslandManager_init p a w))
       = get_nodes (DataIslandManager_init p a w) @ [n, n]
   \<and> get_dmHosts (DataIslandManager_add_node n (DataIslandManager_init p a w))
       = get_dmHosts (DataIslandManager_init p a w) @ [n, n]
   \<and> get_nodes (addDmHost h (DataIslandManager_init p a w))
       = get_nodes (DataIslandManager_init p a w) @ [h]"
  by (simp add: DataIslandManager_init_def CompositeManager_init_def DataIslandManager_add_node_def
      add_node_def addDmHost_def list_append_def get_nodes_def get_dmHosts_def)

section \<open>Evaluation on concrete inputs\<close>

lemma get_tasks_Cons:
  "get_tasks n (x # xs) = (if n = 0 then [] else take n (x # xs) # get_tasks n (drop n (x # xs)))"
  by (subst get_tasks.simps) simp

lemmas eval_defs =
  createSession_def destroySession_def replicate_dm_def tp_map_def chunksize_def get_tasks_Cons
  do_in_host_def do_in_host_try_def ensureDM_def probe_def dmAt_def startDM_def
  createSession_in_def destroySession_in_def deploySession_in_def client_call_def record_event_def
  env_raises_def island_h1h2_def DataIslandManager_init_def CompositeManager_init_def
  world_h1h2_def n_threads_def iterable_or_def no_collect_def getSessionIds_def
  get_dmHosts_def createSession_ok_def destroySession_ok_def deploySession_ok_def
  island_grown_def addDmHost_def list_append_def

section \<open>The session registry\<close>

lemma list_remove_remove1:
  "list_remove x xs = (if x \<in> set xs then Some (remove1 x xs) else None)"
  by (induction xs) auto


lemma replicate_dm_unit_ok:
  fixes f :: "'v \<times> nat \<Rightarrow> ('v, 'p) item \<Rightarrow> 'v \<Rightarrow> 'v state \<Rightarrow> (('v, 'e) exn + 'c) \<times> 'v state"
  shows "(fst (replicate_dm env sid f action no_collect () iterable st) = Inr ())
     = every_child_ok env sid f (iterable_or iterable st) st"
  using replicate_dm_ok_iff [of env sid f action no_collect "()" iterable st] by auto

lemma replicate_dm_raises:
  "\<not> every_child_ok env sid f (iterable_or iterable st) st
     \<Longrightarrow> \<exists>e. fst (replicate_dm env sid f action merge collect iterable st) = Inl e"
  using replicate_dm_ok_iff [of env sid f action merge collect iterable st]
  by (cases "fst (replicate_dm env sid f action merge collect iterable st)") auto

lemma iterable_or_Nil [simp]: "iterable_or [] st = map Host (get_dmHosts st)"
  by (simp add: iterable_or_def get_dmHosts_def)








text \<open>
  C2 as stated fails: with \<open>"s"\<close> registered and \<open>h2\<close> raising on \<open>destroySession\<close>, the
  identifier is still in the registry after \<open>destroySession("s")\<close>, because the removal
  is the statement after the fan-out and is not reached.
\<close>

theorem destroySession_keeps_sid:
  "\<not> (''s'' \<in> set (getSessionIds (snd (createSession (env_raises ''h2'' is_DestroySession) ''s'' island_h1h2)))
      \<longrightarrow> ''s'' \<notin> set (getSessionIds (snd (destroySession (env_raises ''h2'' is_DestroySession) ''s''
             (snd (createSession (env_raises ''h2'' is_DestroySession) ''s'' island_h1h2))))))"
  by (simp add: eval_defs)

text \<open>
  C2, amended.  \<open>destroySession(sid)\<close> removes the first occurrence of \<open>sid\<close> from the
  registry when the fan-out succeeded on every child; when it failed on some child the
  call raises and the registry is unchanged.
\<close>

theorem destroySession_registry:
  "getSessionIds (snd (destroySession env sid st)) =
     (if destroySession_ok env sid st then remove1 sid (getSessionIds st) else getSessionIds st)
   \<and> (\<not> destroySession_ok env sid st \<longrightarrow> (\<exists>e. fst (destroySession env sid st) = Inl e))"
proof -
  let ?f = "destroySession_in env :: 'a \<times> nat \<Rightarrow> ('a, unit) item \<Rightarrow> _"
  let ?r = "replicate_dm env sid ?f ''creating sessions'' no_collect () [] st"
  have ok: "(fst ?r = Inr ()) = destroySession_ok env sid st"
    using replicate_dm_unit_ok [of env sid ?f "''creating sessions''" "[]" st]
    by (simp add: destroySession_ok_def)
  have ext: "extends_trace st (snd ?r)"
    by (rule replicate_dm_extends) simp
  then have ids: "sessionIds (snd ?r) = sessionIds st"
    by (rule extends_trace_fields)
  obtain r st' where r: "?r = (r, st')" by (cases ?r)
  show ?thesis
  proof (cases r)
    case (Inl e)
    with r ok ids show ?thesis
      by (auto simp: destroySession_def getSessionIds_def)
  next
    case (Inr u)
    with r ok ids show ?thesis
      by (auto simp: destroySession_def getSessionIds_def list_remove_remove1 remove1_idem)
  qed
qed

theorem destroySession_registry_witness:
  "\<not> destroySession_ok (env_raises ''h2'' is_DestroySession) ''s''
       (snd (createSession (env_raises ''h2'' is_DestroySession) ''s'' island_h1h2))
   \<and> getSessionIds (snd (destroySession (env_raises ''h2'' is_DestroySession) ''s''
         (snd (createSession (env_raises ''h2'' is_DestroySession) ''s'' island_h1h2))))
      = getSessionIds (snd (createSession (env_raises ''h2'' is_DestroySession) ''s'' island_h1h2))
   \<and> (\<exists>e. fst (destroySession (env_raises ''h2'' is_DestroySession) ''s''
         (snd (createSession (env_raises ''h2'' is_DestroySession) ''s'' island_h1h2))) = Inl e)"
proof -
  have 1: "\<not> destroySession_ok (env_raises ''h2'' is_DestroySession) ''s''
       (snd (createSession (env_raises ''h2'' is_DestroySession) ''s'' island_h1h2))"
    by (simp add: eval_defs)
  show ?thesis
    using 1 destroySession_registry [of "env_raises ''h2'' is_DestroySession" "''s''"
        "snd (createSession (env_raises ''h2'' is_DestroySession) ''s'' island_h1h2)"]
    by simp
qed

section \<open>What a failed fan-out raises\<close>

text \<open>
  \<open>_do_in_host\<close> raises the exception again after storing it, so the pool's \<open>map\<close>
  raises it in \<open>replicate\<close>, and the test of the dictionary of exceptions is reached only
  when that dictionary is empty (\<open>replicate_dm_result\<close>).  The exception that leaves
  \<open>replicate\<close> is the one of a child, never the \<open>SubManagerException\<close>
  (\<open>replicate_dm_never_SubManager\<close>, \<open>createSession_never_SubManager\<close>).
\<close>

text \<open>
  C1 on the code.  On the island of \<open>h1\<close> and \<open>h2\<close> with \<open>h2\<close> raising on
  \<open>createSession\<close>, both children are called, and \<open>createSession("s")\<close> raises the
  exception of \<open>h2\<close> itself, not a \<open>SubManagerException\<close> with the map of the failures.
\<close>

theorem createSession_h2_raises:
  "fst (createSession (env_raises ''h2'' is_CreateSession) ''s'' island_h1h2)
     = Inl (External ''refused'')
   \<and> trace (snd (createSession (env_raises ''h2'' is_CreateSession) ''s'' island_h1h2))
     = [Probe ''h1'' 8000, Call ''h1'' 8000 (CreateSession ''s''),
        Probe ''h2'' 8000, Call ''h2'' 8000 (CreateSession ''s'')]"
  by (simp add: eval_defs)

text \<open>
  A child is not even attempted when it shares a chunk with one that raised before it:
  with one worker and five hosts the chunks have two items, and \<open>h2\<close> is skipped after
  \<open>h1\<close> raised.
\<close>

lemma createSession_skips_children:
  "get_dmHosts island_grown = [''h1'', ''h2'', ''h3'', ''h4'', ''h5'']
   \<and> fst (createSession (env_raises ''h1'' is_CreateSession) ''s'' island_grown)
     = Inl (External ''refused'')
   \<and> trace (snd (createSession (env_raises ''h1'' is_CreateSession) ''s'' island_grown))
     = [Probe ''h1'' 8000, Call ''h1'' 8000 (CreateSession ''s''),
        Probe ''h3'' 8000, Call ''h3'' 8000 (CreateSession ''s''),
        Probe ''h4'' 8000, Call ''h4'' 8000 (CreateSession ''s''),
        Probe ''h5'' 8000, Call ''h5'' 8000 (CreateSession ''s'')]"
  by (simp add: eval_defs)

section \<open>A rejected graph specification\<close>

lemmas eval_defs2 =
  addGraphSpec_def island_A_B3_def island_A_B_def island_uA_uB_def rur_none_def rur_edge_A_B_def
  spec_attr_def uid_for_drop_def graph_at_def dd_append_def dd_get_def dd2_append_def dd2_get_def
  addGraphSpec_in_def partition_ok_def valid_spec_def invalid_msg_def





section \<open>The inter-partition map\<close>

lemma map_of_dict_set: "map_of (dict_set k v d) = (map_of d)(k \<mapsto> v)"
  by (induction d) (auto simp: fun_eq_iff)

lemma dd_get_dict_set: "dd_get (dict_set k v d) k' = (if k' = k then v else dd_get d k')"
  by (simp add: dd_get_def map_of_dict_set)

lemma dd_get_dd_append: "dd_get (dd_append k x d) k' = (if k' = k then dd_get d k @ [x] else dd_get d k')"
  by (simp add: dd_append_def dd_get_dict_set)

lemma dd2_get_dd2_append:
  "dd2_get (dd2_append x y r m) a b =
     (if a = x \<and> b = y then dd2_get m a b @ [r] else dd2_get m a b)"
  by (simp add: dd2_get_def dd2_append_def dd_get_dict_set dd_get_dd_append)

lemma symmetric_map_Nil [simp]: "symmetric_map []"
  by (simp add: symmetric_map_def dd2_get_def dd_get_def)

lemma dd2_get_dd2_append':
  "dd2_get (dd2_append x y r m) a b = dd2_get m a b @ (if a = x \<and> b = y then [r] else [])"
  by (simp add: dd2_get_dd2_append)

lemma if_lists_commute:
  "(if P then [r] else []) @ (if Q then [r] else []) = (if Q then [r] else []) @ (if P then [r] else [])"
  by simp

lemma symmetric_map_step:
  assumes "symmetric_map m"
  shows "symmetric_map (dd2_append rhn lhn r (dd2_append lhn rhn r m))"
  unfolding symmetric_map_def
proof (intro allI)
  fix a b
  let ?M = "dd2_append rhn lhn r (dd2_append lhn rhn r m)"
  from assms have eq: "dd2_get m a b = dd2_get m b a" by (simp add: symmetric_map_def)
  have L: "dd2_get ?M a b = dd2_get m a b @ (if a = lhn \<and> b = rhn then [r] else [])
      @ (if a = rhn \<and> b = lhn then [r] else [])"
    by (simp only: dd2_get_dd2_append' append_assoc)
  have R: "dd2_get ?M b a = dd2_get m b a @ (if b = lhn \<and> a = rhn then [r] else [])
      @ (if b = rhn \<and> a = lhn then [r] else [])"
    by (simp only: dd2_get_dd2_append' append_assoc)
  have P: "(b = lhn \<and> a = rhn) = (a = rhn \<and> b = lhn)" by blast
  have Q: "(b = rhn \<and> a = lhn) = (a = lhn \<and> b = rhn)" by blast
  show "dd2_get ?M a b = dd2_get ?M b a"
    unfolding L R P Q eq
    by (simp only: if_lists_commute)
qed

lemma drop_rels_loop_Cons:
  "(drop_rels_loop (r # rs) g ds m :: ('v, 'e) exn + _) = Inr m' \<Longrightarrow>
     \<exists>rhn lhn. (drop_rels_loop rs g ds (dd2_append rhn lhn r (dd2_append lhn rhn r m))
        :: ('v, 'e) exn + _) = Inr m'"
  by (auto split: sum.splits)

lemma drop_rels_loop_symmetric:
  "(drop_rels_loop rs g ds m :: ('v, 'e) exn + _) = Inr m' \<Longrightarrow> symmetric_map m
     \<Longrightarrow> symmetric_map m'"
proof (induction rs arbitrary: m)
  case Nil
  then show ?case by simp
next
  case (Cons r rs)
  from drop_rels_loop_Cons [OF Cons.prems(1)] obtain rhn lhn where
    "(drop_rels_loop rs g ds (dd2_append rhn lhn r (dd2_append lhn rhn r m))
        :: ('v, 'e) exn + _) = Inr m'"
    by blast
  moreover have "symmetric_map (dd2_append rhn lhn r (dd2_append lhn rhn r m))"
    using Cons.prems(2) by (rule symmetric_map_step)
  ultimately show ?case by (rule Cons.IH)
qed

lemma addGraphSpec_drop_rels:
  fixes env :: "('v, 'e, 'r) env"
  shows "drop_rels (snd (addGraphSpec env rur sid graphSpec st)) = drop_rels st
    \<or> (\<exists>m. symmetric_map m \<and> drop_rels (snd (addGraphSpec env rur sid graphSpec st)) = (drop_rels st)(sid \<mapsto> m))"
proof -
  obtain r1 pp g where pl: "partition_loop (partitionAttr st) (lists st (dmHosts st)) graphSpec
      (dicts st) [] (graph st) = (r1 :: ('v, 'e) exn option, pp, g)"
    by (cases "partition_loop (partitionAttr st) (lists st (dmHosts st)) graphSpec
      (dicts st) [] (graph st) :: ('v, 'e) exn option \<times> _") auto
  show ?thesis
  proof (cases r1)
    case (Some e)
    with pl show ?thesis by (simp add: addGraphSpec_def)
  next
    case None
    obtain r2 ds where rl: "remove_loop rur (map snd pp) (dicts st) [] = (r2, ds)"
      by (cases "remove_loop rur (map snd pp) (dicts st) []")
    show ?thesis
    proof (cases r2)
      case (Inl e)
      with pl None rl show ?thesis by (simp add: addGraphSpec_def)
    next
      case (Inr rels0)
      show ?thesis
      proof (cases "sanitize_relations rels0 g ds :: ('v, 'e) exn + _")
        case (Inl e)
        with pl None rl Inr show ?thesis by (simp add: addGraphSpec_def)
      next
        case sr: (Inr rels)
        show ?thesis
        proof (cases "drop_rels_loop rels g ds [] :: ('v, 'e) exn + _")
          case (Inl e)
          with pl None rl Inr sr show ?thesis by (simp add: addGraphSpec_def)
        next
          case dl: (Inr m)
          then have sym: "symmetric_map m"
            by (rule drop_rels_loop_symmetric) simp
          let ?st3 = "st\<lparr>graph := g, dicts := ds, drop_rels := (drop_rels st)(sid \<mapsto> m)\<rparr>"
          let ?r = "replicate_dm env sid (addGraphSpec_in env)
             ''appending graphSpec to individual DMs'' no_collect ()
             (map (\<lambda>(host, bucket). Pair host bucket) pp) ?st3"
          have "extends_trace ?st3 (snd ?r)"
            by (rule replicate_dm_extends) simp
          then have "drop_rels (snd ?r) = drop_rels ?st3" by (rule extends_trace_fields)
          moreover have "snd (addGraphSpec env rur sid graphSpec st) = snd ?r"
            using pl None rl Inr sr dl
            by (simp add: addGraphSpec_def split: prod.splits sum.splits)
          ultimately show ?thesis using sym by auto
        qed
      qed
    qed
  qed
qed

text \<open>
  What the map holds.  The loop files each relationship under the nodes of its two
  sides, in both directions, so the list that the resulting map has for two nodes is the
  list it had before followed by the relationships between these nodes; and the loop
  returns when the node of every side can be looked up.
\<close>

lemma drop_rels_loop_Cons_nodes:
  "(drop_rels_loop (r # rs) g ds m :: ('v, 'e) exn + _) = Inr m' \<Longrightarrow>
     \<exists>rhn lhn x y. g (rhs r) = Some x \<and> map_of (ds x) ''node'' = Some rhn
       \<and> g (lhs r) = Some y \<and> map_of (ds y) ''node'' = Some lhn
       \<and> (drop_rels_loop rs g ds (dd2_append rhn lhn r (dd2_append lhn rhn r m))
            :: ('v, 'e) exn + _) = Inr m'"
  by (auto simp: graph_at_def spec_attr_def split: sum.splits option.splits)

lemma rels_between_Cons:
  "node_of st (lhs r) = Some lhn \<Longrightarrow> node_of st (rhs r) = Some rhn \<Longrightarrow>
   rels_between st (r # rs) a b =
     (if a = lhn \<and> b = rhn then [r] else []) @ (if a = rhn \<and> b = lhn then [r] else [])
       @ rels_between st rs a b"
proof -
  assume nl: "node_of st (lhs r) = Some lhn" and nr: "node_of st (rhs r) = Some rhn"
  have P: "(node_of st (lhs r) = Some a \<and> node_of st (rhs r) = Some b) = (a = lhn \<and> b = rhn)"
    by (simp only: nl nr option.inject) blast
  have Q: "(node_of st (rhs r) = Some a \<and> node_of st (lhs r) = Some b) = (a = rhn \<and> b = lhn)"
    by (simp only: nl nr option.inject) blast
  show ?thesis
    unfolding rels_between_def list.map concat.simps P Q by (simp only: append_assoc)
qed

lemma drop_rels_loop_content:
  "(drop_rels_loop rs (graph st) (dicts st) m :: ('v, 'e) exn + _) = Inr m' \<Longrightarrow>
     dd2_get m' a b = dd2_get m a b @ rels_between st rs a b"
proof (induction rs arbitrary: m)
  case Nil
  then show ?case by (simp add: rels_between_def)
next
  case (Cons r rs)
  from drop_rels_loop_Cons_nodes [OF Cons.prems] obtain rhn lhn x y where
    x: "graph st (rhs r) = Some x" "map_of (dicts st x) ''node'' = Some rhn"
    and y: "graph st (lhs r) = Some y" "map_of (dicts st y) ''node'' = Some lhn"
    and rest: "(drop_rels_loop rs (graph st) (dicts st)
        (dd2_append rhn lhn r (dd2_append lhn rhn r m)) :: ('v, 'e) exn + _) = Inr m'"
    by blast
  from x have nr: "node_of st (rhs r) = Some rhn" by (simp add: node_of_def)
  from y have nl: "node_of st (lhs r) = Some lhn" by (simp add: node_of_def)
  have step: "dd2_get (dd2_append rhn lhn r (dd2_append lhn rhn r m)) a b =
      dd2_get m a b @ (if a = lhn \<and> b = rhn then [r] else [])
        @ (if a = rhn \<and> b = lhn then [r] else [])"
    by (simp only: dd2_get_dd2_append' append_assoc)
  from Cons.IH [OF rest] have "dd2_get m' a b =
      dd2_get (dd2_append rhn lhn r (dd2_append lhn rhn r m)) a b @ rels_between st rs a b" .
  then show ?case
    unfolding step rels_between_Cons [OF nl nr] by (simp only: append_assoc)
qed

lemma drop_rels_loop_succeeds:
  "\<forall>r\<in>set rs. node_of st (lhs r) \<noteq> None \<and> node_of st (rhs r) \<noteq> None \<Longrightarrow>
     \<exists>m'. (drop_rels_loop rs (graph st) (dicts st) m :: ('v, 'e) exn + _) = Inr m'"
proof (induction rs arbitrary: m)
  case Nil
  then show ?case by simp
next
  case (Cons r rs)
  from Cons.prems obtain lhn rhn where
    nl: "node_of st (lhs r) = Some lhn" and nr: "node_of st (rhs r) = Some rhn"
    by auto
  from nl obtain y where y: "graph st (lhs r) = Some y" "map_of (dicts st y) ''node'' = Some lhn"
    by (auto simp: node_of_def split: option.splits)
  from nr obtain x where x: "graph st (rhs r) = Some x" "map_of (dicts st x) ''node'' = Some rhn"
    by (auto simp: node_of_def split: option.splits)
  from Cons.prems have "\<forall>r\<in>set rs. node_of st (lhs r) \<noteq> None \<and> node_of st (rhs r) \<noteq> None"
    by simp
  from Cons.IH [OF this, of "dd2_append rhn lhn r (dd2_append lhn rhn r m)"]
  obtain m' where "(drop_rels_loop rs (graph st) (dicts st)
      (dd2_append rhn lhn r (dd2_append lhn rhn r m)) :: ('v, 'e) exn + _) = Inr m'"
    by blast
  with x y show ?case by (simp add: graph_at_def spec_attr_def)
qed

lemma rels_between_member:
  "r \<in> set rels \<Longrightarrow> node_of st (lhs r) = Some A \<Longrightarrow> node_of st (rhs r) = Some B \<Longrightarrow>
     r \<in> set (rels_between st rels A B) \<and> r \<in> set (rels_between st rels B A)"
  by (auto simp: rels_between_def)

lemma addGraphSpec_stores:
  fixes env :: "('v, 'e, 'r) env" and rur :: "('v, 'e) rur"
  assumes "inter_partition_rels rur graphSpec st = Some rels"
  shows "drop_rels (snd (addGraphSpec env rur sid graphSpec st)) =
     (case (drop_rels_loop rels (graph (snd (addGraphSpec env rur sid graphSpec st)))
              (dicts (snd (addGraphSpec env rur sid graphSpec st))) [] :: ('v, 'e) exn + _) of
        Inl e \<Rightarrow> drop_rels st
      | Inr m \<Rightarrow> (drop_rels st)(sid \<mapsto> m))"
proof -
  obtain r1 pp g where pl: "partition_loop (partitionAttr st) (lists st (dmHosts st)) graphSpec
      (dicts st) [] (graph st) = (r1 :: ('v, 'e) exn option, pp, g)"
    by (cases "partition_loop (partitionAttr st) (lists st (dmHosts st)) graphSpec
      (dicts st) [] (graph st) :: ('v, 'e) exn option \<times> _") auto
  obtain r2 ds where rl: "remove_loop rur (map snd pp) (dicts st) [] = (r2, ds)"
    by (cases "remove_loop rur (map snd pp) (dicts st) []")
  from assms pl rl have r1: "r1 = None"
    by (auto simp: inter_partition_rels_def split: option.splits)
  from assms pl rl r1 obtain rels0 where r2: "r2 = Inr rels0"
    by (auto simp: inter_partition_rels_def split: sum.splits)
  from assms pl rl r1 r2 have sr: "(sanitize_relations rels0 g ds :: ('v, 'e) exn + _) = Inr rels"
    by (auto simp: inter_partition_rels_def split: sum.splits)
  show ?thesis
  proof (cases "drop_rels_loop rels g ds [] :: ('v, 'e) exn + _")
    case (Inl e)
    with pl r1 rl r2 sr show ?thesis by (simp add: addGraphSpec_def)
  next
    case dl: (Inr m)
    let ?st3 = "st\<lparr>graph := g, dicts := ds, drop_rels := (drop_rels st)(sid \<mapsto> m)\<rparr>"
    let ?r = "replicate_dm env sid (addGraphSpec_in env)
       ''appending graphSpec to individual DMs'' no_collect ()
       (map (\<lambda>(host, bucket). Pair host bucket) pp) ?st3"
    have ext: "extends_trace ?st3 (snd ?r)"
      by (rule replicate_dm_extends) simp
    have eq: "snd (addGraphSpec env rur sid graphSpec st) = snd ?r"
      using pl r1 rl r2 sr dl
      by (simp add: addGraphSpec_def split: prod.splits sum.splits)
    from ext have "drop_rels (snd ?r) = drop_rels ?st3" "graph (snd ?r) = graph ?st3"
      "dicts (snd ?r) = dicts ?st3"
      by (rule extends_trace_fields)+
    with eq dl show ?thesis by simp
  qed
qed

text \<open>
  C7.  After a call of \<open>addGraphSpec\<close> every stored inter-partition map is symmetric,
  provided the maps stored before the call were: \<open>map[a][b]\<close> and \<open>map[b][a]\<close> are the
  same list.  For the session of the call, when the call has got as far as its
  relationships \<open>rels\<close> and the node of each of their sides can be looked up in the
  graph, that list is the list of the relationships of \<open>rels\<close> between \<open>a\<close> and \<open>b\<close>,
  and every relationship of \<open>rels\<close>, between the nodes \<open>A\<close> of its left side and \<open>B\<close>
  of its right side, is in \<open>map[A][B]\<close> and in \<open>map[B][A]\<close>.  A new manager has no
  maps.
\<close>

theorem addGraphSpec_symmetric:
  fixes env :: "('v, 'e, 'r) env" and rur :: "('v, 'e) rur"
  assumes "drop_rels (snd (addGraphSpec env rur sid graphSpec st)) s = Some m"
    and "\<forall>m0. drop_rels st s = Some m0 \<longrightarrow> symmetric_map m0"
  shows "symmetric_map m \<and> dd2_get m a b = dd2_get m b a
    \<and> (s = sid \<and> inter_partition_rels rur graphSpec st = Some rels
         \<and> (\<forall>r\<in>set rels. node_of (snd (addGraphSpec env rur sid graphSpec st)) (lhs r) \<noteq> None
                \<and> node_of (snd (addGraphSpec env rur sid graphSpec st)) (rhs r) \<noteq> None)
       \<longrightarrow> dd2_get m a b = rels_between (snd (addGraphSpec env rur sid graphSpec st)) rels a b
         \<and> (\<forall>r\<in>set rels. \<exists>A B.
               node_of (snd (addGraphSpec env rur sid graphSpec st)) (lhs r) = Some A
             \<and> node_of (snd (addGraphSpec env rur sid graphSpec st)) (rhs r) = Some B
             \<and> r \<in> set (dd2_get m A B) \<and> r \<in> set (dd2_get m B A)))"
proof -
  let ?st' = "snd (addGraphSpec env rur sid graphSpec st)"
  from addGraphSpec_drop_rels [of env rur sid graphSpec st] assms
  have sym: "symmetric_map m" by (auto split: if_splits)
  have content: "dd2_get m a b = rels_between ?st' rels a b
         \<and> (\<forall>r\<in>set rels. \<exists>A B. node_of ?st' (lhs r) = Some A \<and> node_of ?st' (rhs r) = Some B
             \<and> r \<in> set (dd2_get m A B) \<and> r \<in> set (dd2_get m B A))"
    if s: "s = sid" and ipr: "inter_partition_rels rur graphSpec st = Some rels"
      and known: "\<forall>r\<in>set rels. node_of ?st' (lhs r) \<noteq> None \<and> node_of ?st' (rhs r) \<noteq> None"
  proof -
    from drop_rels_loop_succeeds [OF known, of "[]"] obtain m' where
      dl: "(drop_rels_loop rels (graph ?st') (dicts ?st') [] :: ('v, 'e) exn + _) = Inr m'"
      by blast
    from addGraphSpec_stores [OF ipr, of env sid] dl
    have "drop_rels ?st' = (drop_rels st)(sid \<mapsto> m')" by simp
    with assms(1) s have m: "m' = m" by simp
    have get: "dd2_get m x y = rels_between ?st' rels x y" for x y
      using drop_rels_loop_content [OF dl, of x y] m by (simp add: dd2_get_def dd_get_def)
    have "\<exists>A B. node_of ?st' (lhs r) = Some A \<and> node_of ?st' (rhs r) = Some B
             \<and> r \<in> set (dd2_get m A B) \<and> r \<in> set (dd2_get m B A)" if r: "r \<in> set rels" for r
    proof -
      from known r obtain A B where
        A: "node_of ?st' (lhs r) = Some A" and B: "node_of ?st' (rhs r) = Some B" by auto
      from rels_between_member [OF r A B] get A B show ?thesis by simp
    qed
    with get show ?thesis by blast
  qed
  from sym content show ?thesis by (simp add: symmetric_map_def)
qed

text \<open>
  The cross-partition edge from \<open>A\<close> on \<open>h1\<close> to \<open>B\<close> on \<open>h2\<close>, without unique
  identifiers: the stored map is \<open>{h1: {h2: [r]}, h2: {h1: [r]}}\<close>.
\<close>

theorem addGraphSpec_symmetric_witness:
  "drop_rels (snd (addGraphSpec (env_raises ''h2'' (\<lambda>c. False)) rur_edge_A_B ''s'' [0, 1] island_A_B)) ''s''
     = Some [(''h1'', [(''h2'', [DROPRel ''A'' ''STREAM'' ''B''])]),
             (''h2'', [(''h1'', [DROPRel ''A'' ''STREAM'' ''B''])])]
   \<and> drop_rels island_A_B ''s'' = None
   \<and> inter_partition_rels (rur_edge_A_B :: (string, string) rur) [0, 1] island_A_B
     = Some [DROPRel ''A'' ''STREAM'' ''B'']
   \<and> node_of (snd (addGraphSpec (env_raises ''h2'' (\<lambda>c. False)) rur_edge_A_B ''s'' [0, 1] island_A_B)) ''A''
     = Some ''h1''
   \<and> node_of (snd (addGraphSpec (env_raises ''h2'' (\<lambda>c. False)) rur_edge_A_B ''s'' [0, 1] island_A_B)) ''B''
     = Some ''h2''
   \<and> symmetric_map [(''h1'', [(''h2'', [DROPRel ''A'' ''STREAM'' ''B''])]),
                     (''h2'', [(''h1'', [DROPRel ''A'' ''STREAM'' ''B''])])]
   \<and> dd2_get [(''h1'', [(''h2'', [DROPRel ''A'' ''STREAM'' ''B''])]),
               (''h2'', [(''h1'', [DROPRel ''A'' ''STREAM'' ''B''])])] ''h1'' ''h2''
     = rels_between (snd (addGraphSpec (env_raises ''h2'' (\<lambda>c. False)) rur_edge_A_B ''s'' [0, 1] island_A_B))
         [DROPRel ''A'' ''STREAM'' ''B''] ''h1'' ''h2''
   \<and> rels_between (snd (addGraphSpec (env_raises ''h2'' (\<lambda>c. False)) rur_edge_A_B ''s'' [0, 1] island_A_B))
         [DROPRel ''A'' ''STREAM'' ''B''] ''h1'' ''h2'' = [DROPRel ''A'' ''STREAM'' ''B'']"
proof -
  let ?st' = "snd (addGraphSpec (env_raises ''h2'' (\<lambda>c. False)) rur_edge_A_B ''s'' [0, 1] island_A_B)"
  have 1: "drop_rels ?st' ''s''
     = Some [(''h1'', [(''h2'', [DROPRel ''A'' ''STREAM'' ''B''])]),
             (''h2'', [(''h1'', [DROPRel ''A'' ''STREAM'' ''B''])])]"
    by (simp add: eval_defs eval_defs2)
  have 2: "drop_rels island_A_B ''s'' = None"
    by (simp add: eval_defs eval_defs2)
  then have 3: "\<forall>m0. drop_rels island_A_B ''s'' = Some m0 \<longrightarrow> symmetric_map m0"
    by simp
  have 4: "inter_partition_rels (rur_edge_A_B :: (string, string) rur) [0, 1] island_A_B
     = Some [DROPRel ''A'' ''STREAM'' ''B'']"
    by (simp add: eval_defs eval_defs2 inter_partition_rels_def node_of_def rels_between_def)
  have 5: "node_of ?st' ''A'' = Some ''h1''"
    by (simp add: eval_defs eval_defs2 inter_partition_rels_def node_of_def rels_between_def)
  have 6: "node_of ?st' ''B'' = Some ''h2''"
    by (simp add: eval_defs eval_defs2 inter_partition_rels_def node_of_def rels_between_def)
  have 7: "rels_between ?st' [DROPRel ''A'' ''STREAM'' ''B''] ''h1'' ''h2'' = [DROPRel ''A'' ''STREAM'' ''B'']"
    using 5 6 by (simp add: rels_between_def)
  from addGraphSpec_symmetric [OF 1 3, where rels = "[DROPRel ''A'' ''STREAM'' ''B'']"
      and a = "''h1''" and b = "''h2''"]
    1 2 4 5 6 7
  show ?thesis by (simp add: dd2_get_def dd_get_def)
qed

section \<open>An empty graph specification\<close>

text \<open>
  With an empty graph specification the fan-out of \<open>addGraphSpec\<close> runs over the host
  list, and \<open>_addGraphSpec\<close> unpacks the host names.  On the island of \<open>h1\<close> and
  \<open>h2\<close> each child is sent the second character of its name as the graph
  specification; a host name of three characters raises \<open>ValueError\<close>.
\<close>

lemma addGraphSpec_empty_unpacks_hosts:
  "fst (addGraphSpec (env_raises ''h2'' (\<lambda>c. False)) rur_none ''s'' [] island_h1h2) = Inr ()
   \<and> trace (snd (addGraphSpec (env_raises ''h2'' (\<lambda>c. False)) rur_none ''s'' [] island_h1h2))
     = [Probe ''h1'' 8000, Call ''h1'' 8000 (AddGraphSpecValue ''s'' ''1''),
        Probe ''h2'' 8000, Call ''h2'' 8000 (AddGraphSpecValue ''s'' ''2'')]
   \<and> drop_rels (snd (addGraphSpec (env_raises ''h2'' (\<lambda>c. False)) rur_none ''s'' [] island_h1h2)) ''s''
     = Some []"
  by (simp add: eval_defs eval_defs2)

lemma addGraphSpec_empty_long_host:
  "fst (addGraphSpec (env_raises ''h2'' (\<lambda>c. False)) rur_none ''s'' [] (addDmHost ''h10'' island_h1h2))
     = Inl (ValueError ''h10'')
   \<and> trace (snd (addGraphSpec (env_raises ''h2'' (\<lambda>c. False)) rur_none ''s'' []
        (addDmHost ''h10'' island_h1h2)))
     = [Probe ''h1'' 8000, Call ''h1'' 8000 (AddGraphSpecValue ''s'' ''1''),
        Probe ''h2'' 8000, Call ''h2'' 8000 (AddGraphSpecValue ''s'' ''2''),
        Probe ''h10'' 8000]"
  by (simp add: eval_defs eval_defs2)

section \<open>Sanitising the relationships\<close>

text \<open>
  \<open>sanitize_relations\<close> looks the two ends of a relationship up in the session graph.
  The graph is keyed by unique identifier, so in a graph built by \<open>addGraphSpec\<close> the
  specification found under a key has that key as its identifier: when all lookups
  succeed, the list comes back as it was.
\<close>

lemma sanitize_relations_Cons:
  "(sanitize_relations (r # rs) g ds :: ('v, 'e) exn + _) = Inr rs' \<Longrightarrow>
     \<exists>a b l r' rs0. g (lhs r) = Some a \<and> (uid_for_drop (ds a) :: ('v, 'e) exn + _) = Inr l
       \<and> g (rhs r) = Some b \<and> (uid_for_drop (ds b) :: ('v, 'e) exn + _) = Inr r'
       \<and> (sanitize_relations rs g ds :: ('v, 'e) exn + _) = Inr rs0
       \<and> rs' = DROPRel l (rel r) r' # rs0"
  by (auto simp: graph_at_def split: sum.splits option.splits)

lemma graph_by_uid_key:
  assumes "graph_by_uid g ds" "g k = Some a" "(uid_for_drop (ds a) :: ('v, 'e) exn + _) = Inr k'"
  shows "k' = k"
proof -
  from assms(1,2)
  have c: "(case map_of (ds a) ''uid'' of Some u \<Rightarrow> u = k | None \<Rightarrow> map_of (ds a) ''oid'' = Some k)"
    unfolding graph_by_uid_def by blast
  show ?thesis
    using c assms(3)
    by (cases "map_of (ds a) ''uid''") (auto simp: uid_for_drop_def split: option.splits)
qed

lemma sanitize_relations_identity:
  assumes "graph_by_uid g ds"
  shows "(sanitize_relations rs g ds :: ('v, 'e) exn + _) = Inr rs' \<Longrightarrow> rs' = rs"
proof (induction rs arbitrary: rs')
  case Nil
  then show ?case by simp
next
  case (Cons r rs)
  from sanitize_relations_Cons [OF Cons.prems] obtain a b l r' rs0 where
    a: "g (lhs r) = Some a" "(uid_for_drop (ds a) :: ('v, 'e) exn + _) = Inr l"
    and b: "g (rhs r) = Some b" "(uid_for_drop (ds b) :: ('v, 'e) exn + _) = Inr r'"
    and rest: "(sanitize_relations rs g ds :: ('v, 'e) exn + _) = Inr rs0"
    and res: "rs' = DROPRel l (rel r) r' # rs0"
    by blast
  from graph_by_uid_key [OF assms a] have l: "l = lhs r" .
  from graph_by_uid_key [OF assms b] have r': "r' = rhs r" .
  from Cons.IH [OF rest] l r' res show ?case by simp
qed

text \<open>
  C4 on the code.  The specifications \<open>{oid: A, uid: uA, node: h1}\<close> and
  \<open>{oid: B, uid: uB, node: h2}\<close> are stored under \<open>uA\<close> and \<open>uB\<close>.  The edge arrives as
  \<open>DROPRel(A, STREAM, B)\<close>, in object identifiers, and the lookup \<open>graph[A]\<close> raises
  \<open>KeyError\<close>: \<open>addGraphSpec\<close> fails before it stores a map or contacts a child, and no
  relationship \<open>(uA, STREAM, uB)\<close> is produced.
\<close>

theorem sanitize_relations_oid_lookup:
  "fst (addGraphSpec (env_raises ''h2'' (\<lambda>c. False)) rur_edge_A_B ''s'' [0, 1] island_uA_uB)
     = Inl (KeyError (Val ''A''))
   \<and> trace (snd (addGraphSpec (env_raises ''h2'' (\<lambda>c. False)) rur_edge_A_B ''s'' [0, 1] island_uA_uB)) = []
   \<and> drop_rels (snd (addGraphSpec (env_raises ''h2'' (\<lambda>c. False)) rur_edge_A_B ''s'' [0, 1] island_uA_uB)) ''s''
     = None
   \<and> (sanitize_relations [DROPRel ''A'' ''STREAM'' ''B''] [''uA'' \<mapsto> 0, ''uB'' \<mapsto> 1]
        (dicts island_uA_uB) :: (string, string) exn + _)
     = Inl (KeyError (Val ''A''))"
  by (simp add: eval_defs eval_defs2)

section \<open>Deploying a session\<close>

lemma triggerDrops_extends:
  "extends_trace (snd w) (snd (snd (triggerDrops env np sid x w)))"
proof -
  obtain exs st where w: "w = (exs, st)" by (cases w)
  obtain r st' where c: "client_call env (dmAt st (fst x) (Some np)) (TriggerDrops sid (snd x)) st = (r, st')"
    by (cases "client_call env (dmAt st (fst x) (Some np)) (TriggerDrops sid (snd x)) st")
  then have "extends_trace st st'" by (rule client_call_extends)
  with w c show ?thesis by (cases r) (simp_all add: triggerDrops_def)
qed

lemma add_node_subscriptions_wrapper_extends:
  "extends_trace (snd w) (snd (snd (add_node_subscriptions_wrapper env np sid x w)))"
proof -
  obtain exs st where w: "w = (exs, st)" by (cases w)
  obtain r st' where c: "client_call env (dmAt st (fst x) (Some np))
      (AddNodeSubscriptions sid (snd x)) st = (r, st')"
    by (cases "client_call env (dmAt st (fst x) (Some np)) (AddNodeSubscriptions sid (snd x)) st")
  then have "extends_trace st st'" by (rule client_call_extends)
  with w c show ?thesis by (cases r) (simp_all add: add_node_subscriptions_wrapper_def)
qed

lemma deploy_subscriptions_extends:
  "extends_trace st (snd (deploy_subscriptions env np sid rels st))"
proof -
  obtain r exs st' where tp: "tp_map (tp st) (add_node_subscriptions_wrapper env np sid) rels ([], st)
      = (r, exs, st')"
    by (cases "tp_map (tp st) (add_node_subscriptions_wrapper env np sid) rels ([], st)") auto
  have "extends_trace st (snd (snd (tp_map (tp st) (add_node_subscriptions_wrapper env np sid) rels
      ([], st))))"
    using tp_map_extends [of snd "add_node_subscriptions_wrapper env np sid" "([], st)" "tp st" rels]
      add_node_subscriptions_wrapper_extends [of _ env np sid]
    by simp
  with tp have "extends_trace st st'" by simp
  with tp show ?thesis
    by (cases r) (simp_all add: deploy_subscriptions_def)
qed

lemma deploy_completed_extends:
  fixes env :: "('v, 'e, 'r) env"
  shows "extends_trace st (snd (deploy_completed env np sid completed st))"
proof (cases "completed \<noteq> [] \<and> filter (\<lambda>uid. graph st uid = None) (remdups completed) = []")
  case False
  then show ?thesis by (auto simp: deploy_completed_def)
next
  case True
  show ?thesis
  proof (cases "group_by_node completed (graph st) (dicts st) :: ('v, 'e) exn + _")
    case (Inl e)
    with True show ?thesis by (simp add: deploy_completed_def)
  next
    case (Inr groups)
    obtain r exs st' where tp: "tp_map (tp st) (triggerDrops env np sid) groups ([], st) = (r, exs, st')"
      by (cases "tp_map (tp st) (triggerDrops env np sid) groups ([], st)") auto
    have "extends_trace st (snd (snd (tp_map (tp st) (triggerDrops env np sid) groups ([], st))))"
      using tp_map_extends [of snd "triggerDrops env np sid" "([], st)" "tp st" groups]
        triggerDrops_extends [of _ env np sid]
      by simp
    with tp have "extends_trace st st'" by simp
    with True Inr tp show ?thesis
      by (cases r) (simp_all add: deploy_completed_def)
  qed
qed

lemma deploy_to_children_extends:
  "extends_trace st (snd (deploy_to_children env np sid st))"
proof (cases "drop_rels st sid")
  case None
  then show ?thesis by (simp add: deploy_to_children_def)
next
  case (Some rels)
  obtain r1 st1 where s: "deploy_subscriptions env np sid rels st = (r1, st1)"
    by (cases "deploy_subscriptions env np sid rels st")
  with deploy_subscriptions_extends [of st env np sid rels] have 1: "extends_trace st st1" by simp
  show ?thesis
  proof (cases r1)
    case None
    let ?f = "deploySession_in env :: 'a \<times> nat \<Rightarrow> ('a, unit) item \<Rightarrow> _"
    have "extends_trace st1 (snd (replicate_dm env sid ?f ''deploying session'' no_collect () [] st1))"
      by (rule replicate_dm_extends) simp
    with 1 Some s None show ?thesis
      by (auto simp: deploy_to_children_def intro: extends_trace_trans)
  next
    case (Some e)
    with 1 \<open>drop_rels st sid = Some rels\<close> s show ?thesis
      by (simp add: deploy_to_children_def)
  qed
qed

lemma deploySession_phases:
  "deploySession env np sid completed st =
     (case deploy_to_children env np sid st of
        (Inl e, st2) \<Rightarrow> (Inl e, st2)
      | (Inr u, st2) \<Rightarrow> deploy_completed env np sid completed st2)"
  by (auto simp: deploySession_def deploy_to_children_def split: option.splits prod.splits sum.splits)

lemma deploySession_extends:
  "extends_trace st (snd (deploySession env np sid completed st))"
proof -
  obtain r st2 where d: "deploy_to_children env np sid st = (r, st2)"
    by (cases "deploy_to_children env np sid st")
  with deploy_to_children_extends [of st env np sid] have 1: "extends_trace st st2" by simp
  show ?thesis
  proof (cases r)
    case (Inl e)
    with d 1 show ?thesis by (simp add: deploySession_phases)
  next
    case (Inr u)
    with d 1 deploy_completed_extends [of st2 env np sid completed] show ?thesis
      by (auto simp: deploySession_phases intro: extends_trace_trans)
  qed
qed

lemma createSession_drop_rels: "drop_rels (snd (createSession env sid st)) = drop_rels st"
proof -
  let ?f = "createSession_in env :: 'a \<times> nat \<Rightarrow> ('a, unit) item \<Rightarrow> _"
  have "extends_trace st (snd (replicate_dm env sid ?f ''creating sessions'' no_collect () [] st))"
    by (rule replicate_dm_extends) simp
  then have "drop_rels (snd (replicate_dm env sid ?f ''creating sessions'' no_collect () [] st))
      = drop_rels st"
    by (rule extends_trace_fields)
  then show ?thesis
    by (auto simp: createSession_def split: prod.splits sum.splits)
qed

lemma destroySession_drop_rels: "drop_rels (snd (destroySession env sid st)) = drop_rels st"
proof -
  let ?f = "destroySession_in env :: 'a \<times> nat \<Rightarrow> ('a, unit) item \<Rightarrow> _"
  have "extends_trace st (snd (replicate_dm env sid ?f ''creating sessions'' no_collect () [] st))"
    by (rule replicate_dm_extends) simp
  then have "drop_rels (snd (replicate_dm env sid ?f ''creating sessions'' no_collect () [] st))
      = drop_rels st"
    by (rule extends_trace_fields)
  then show ?thesis
    by (auto simp: destroySession_def split: prod.splits sum.splits option.splits)
qed

lemma run_op_drop_rels:
  assumes "drop_rels st sid = None" "\<not> adds_graph sid c"
  shows "drop_rels (run_op env rur np c st) sid = None"
proof (cases c)
  case (OpCreateSession s)
  with assms show ?thesis by (simp add: createSession_drop_rels)
next
  case (OpDestroySession s)
  with assms show ?thesis by (simp add: destroySession_drop_rels)
next
  case (OpAddGraphSpec s gs)
  with assms have "s \<noteq> sid" by simp
  with addGraphSpec_drop_rels [of env rur s gs st] assms OpAddGraphSpec show ?thesis
    by auto
next
  case (OpDeploySession s completed)
  from deploySession_extends [of st env np s completed]
  have "drop_rels (snd (deploySession env np s completed st)) = drop_rels st"
    by (rule extends_trace_fields)
  with assms OpDeploySession show ?thesis by simp
qed

lemma run_ops_drop_rels:
  "drop_rels st sid = None \<Longrightarrow> list_all (\<lambda>c. \<not> adds_graph sid c) cs
     \<Longrightarrow> drop_rels (run_ops env rur np cs st) sid = None"
  by (induction cs arbitrary: st) (auto simp: run_op_drop_rels)

text \<open>
  C9.  \<open>_drop_rels\<close> is a plain dictionary, empty in a new manager, and only
  \<open>addGraphSpec(sid, ...)\<close> stores an entry for \<open>sid\<close>.  So after any sequence of calls
  that has no \<open>addGraphSpec\<close> for \<open>sid\<close>, successful \<open>createSession(sid)\<close> included,
  \<open>deploySession(sid)\<close> raises the \<open>KeyError\<close> of \<open>self._drop_rels[sessionId]\<close> and leaves
  the state, and with it the trace, as it was: no child is contacted.
\<close>

theorem deploySession_without_addGraphSpec:
  assumes "drop_rels st sid = None" and "list_all (\<lambda>c. \<not> adds_graph sid c) cs"
  shows "deploySession env np sid completed (run_ops env rur np cs st)
     = (Inl (KeyError (Val sid)), run_ops env rur np cs st)"
  using run_ops_drop_rels [OF assms, of env rur np] by (simp add: deploySession_def)

text \<open>
  After a successful \<open>createSession("s")\<close> on the island of \<open>h1\<close> and \<open>h2\<close>, the session
  is registered and \<open>deploySession("s")\<close> raises the \<open>KeyError\<close>.
\<close>

theorem deploySession_without_addGraphSpec_witness:
  "drop_rels island_h1h2 ''s'' = None
   \<and> list_all (\<lambda>c. \<not> adds_graph ''s'' c) [OpCreateSession ''s'']
   \<and> getSessionIds (run_ops (env_raises ''h2'' (\<lambda>c. False)) rur_none 8000 [OpCreateSession ''s''] island_h1h2)
       = [''s'']
   \<and> deploySession (env_raises ''h2'' (\<lambda>c. False)) 8000 ''s'' []
        (run_ops (env_raises ''h2'' (\<lambda>c. False)) rur_none 8000 [OpCreateSession ''s''] island_h1h2)
     = (Inl (KeyError (Val ''s'')),
        run_ops (env_raises ''h2'' (\<lambda>c. False)) rur_none 8000 [OpCreateSession ''s''] island_h1h2)"
proof -
  have 1: "drop_rels island_h1h2 ''s'' = None"
    by (simp add: eval_defs)
  have 2: "list_all (\<lambda>c. \<not> adds_graph ''s'' c) [OpCreateSession ''s'']"
    by simp
  have 3: "getSessionIds (run_ops (env_raises ''h2'' (\<lambda>c. False)) rur_none 8000 [OpCreateSession ''s''] island_h1h2)
       = [''s'']"
    by (simp add: eval_defs)
  from deploySession_without_addGraphSpec [OF 1 2] 1 2 3 show ?thesis by simp
qed

section \<open>The completed drops\<close>


















lemma group_by_node_loop_get:
  "(group_by_node_loop uids g ds acc :: ('v, 'e) exn + _) = Inr groups \<Longrightarrow>
     dd_get groups n =
       dd_get acc n @ filter (\<lambda>u. \<exists>a. g u = Some a \<and> map_of (ds a) ''node'' = Some n) uids"
proof (induction uids arbitrary: acc)
  case Nil
  then show ?case by simp
next
  case (Cons u uids)
  from Cons.prems obtain a n' where
    a: "g u = Some a" and n': "map_of (ds a) ''node'' = Some n'"
    and rest: "(group_by_node_loop uids g ds (dd_append n' u acc) :: ('v, 'e) exn + _) = Inr groups"
    by (auto simp: graph_at_def spec_attr_def split: sum.splits option.splits)
  from Cons.IH [OF rest] a n' show ?case
    by (auto simp: dd_get_dd_append)
qed

lemma group_by_node_get:
  "(group_by_node uids g ds :: ('v, 'e) exn + _) = Inr groups \<Longrightarrow>
     dd_get groups n = filter (\<lambda>u. \<exists>a. g u = Some a \<and> map_of (ds a) ''node'' = Some n) uids"
  using group_by_node_loop_get [of uids g ds "[]" groups n]
  by (simp add: group_by_node_def dd_get_def)





section \<open>The outcomes of the reachability probe\<close>






lemma attempt_outcome_None [simp]: "attempt_outcome None a = conn a"
  by (cases "conn a") (simp_all add: attempt_outcome_def)




end
